theory Spec2Isabelle
  imports Main
begin

section \<open>Python string primitives\<close>

text \<open>
  Python's \<open>str\<close> is modelled as \<open>string\<close>; a \<open>char\<close> stands for a code point below 256.
  On that range the classes below are exactly the ones CPython uses: \<open>str.isspace\<close>
  (also \<open>\s\<close> of \<open>re\<close>, \<open>str.split()\<close> and \<open>str.strip()\<close>) and the decimal digits
  matched by \<open>\d\<close>.
\<close>

definition isspace :: "char \<Rightarrow> bool" where
  "isspace c \<longleftrightarrow> c \<in> set [CHR 0x09, CHR 0x0A, CHR 0x0B, CHR 0x0C, CHR 0x0D,
      CHR 0x1C, CHR 0x1D, CHR 0x1E, CHR 0x1F, CHR 0x20, CHR 0x85, CHR 0xA0]"

definition isdigit :: "char \<Rightarrow> bool" where
  "isdigit c \<longleftrightarrow> c \<in> set ''0123456789''"

definition digit_val :: "char \<Rightarrow> int" where
  "digit_val c = int (of_char c) - 48"

text \<open>\<open>int(s)\<close> on a string of decimal digits.\<close>

definition int_of_digits :: "string \<Rightarrow> int" where
  "int_of_digits s = foldl (\<lambda>a c. 10 * a + digit_val c) 0 s"

text \<open>\<open>s.lstrip()\<close>, \<open>s.rstrip()\<close>, \<open>s.strip()\<close> and \<open>s.rstrip(chars)\<close>.\<close>

definition lstrip :: "string \<Rightarrow> string" where
  "lstrip s = dropWhile isspace s"

definition rstrip :: "string \<Rightarrow> string" where
  "rstrip s = rev (dropWhile isspace (rev s))"

definition strip :: "string \<Rightarrow> string" where
  "strip s = lstrip (rstrip s)"

definition rstrip_chars :: "string \<Rightarrow> string \<Rightarrow> string" where
  "rstrip_chars chars s = rev (dropWhile (\<lambda>c. c \<in> set chars) (rev s))"

text \<open>\<open>str(n)\<close> for an integer.\<close>

definition digit_char :: "nat \<Rightarrow> char" where
  "digit_char n = ''0123456789'' ! n"

fun str_nat :: "nat \<Rightarrow> string" where
  "str_nat n = (if n < 10 then [digit_char n] else str_nat (n div 10) @ [digit_char (n mod 10)])"

declare str_nat.simps [simp del]

definition str_int :: "int \<Rightarrow> string" where
  "str_int i = (if i < 0 then CHR ''-'' # str_nat (nat (- i)) else str_nat (nat i))"

section \<open>The progress pattern of \<open>pull_model\<close>\<close>

text \<open>
  \<open>re.search(r"(\d{1,3})%\s*$", line)\<close>. At one start position the greedy \<open>\d{1,3}\<close>
  is tried with three, then two, then one digit; after the percent sign \<open>\s*$\<close> succeeds
  exactly when everything that is left is whitespace (a newline is whitespace too, so the
  end-of-string and the before-final-newline readings of \<open>$\<close> coincide). The search takes
  the leftmost start position that matches. The result is group 1.
\<close>

definition match_percent_n :: "nat \<Rightarrow> string \<Rightarrow> string option" where
  "match_percent_n n s =
     (if n \<le> length s \<and> list_all isdigit (take n s) then
        (case drop n s of
           [] \<Rightarrow> None
         | c # rest \<Rightarrow> if c = CHR ''%'' \<and> list_all isspace rest then Some (take n s) else None)
      else None)"

definition match_percent :: "string \<Rightarrow> string option" where
  "match_percent s =
     (case match_percent_n 3 s of
        Some g \<Rightarrow> Some g
      | None \<Rightarrow>
         (case match_percent_n 2 s of
            Some g \<Rightarrow> Some g
          | None \<Rightarrow> match_percent_n 1 s))"

fun search_percent :: "string \<Rightarrow> string option" where
  "search_percent [] = None"
| "search_percent (c # cs) =
     (case match_percent (c # cs) of
        Some g \<Rightarrow> Some g
      | None \<Rightarrow> search_percent cs)"

section \<open>Streaming invocations\<close>

text \<open>
  \<open>subprocess.Popen\<close> is the environment: given the argument vector it either raises
  (the string is \<open>str(e)\<close>) or starts a process that writes the given lines and then exits
  with the given code. The first element of the argument vector is \<open>self.binary_path\<close>,
  which may be \<open>None\<close>.
\<close>

datatype popen_result = PopenRaised string | PopenStarted "string list" int

text \<open>
  A callback is called with an argument and either returns or raises \<open>Exception\<close>
  (\<open>Some msg\<close>, where \<open>msg\<close> is \<open>str(e)\<close>). What it does may depend on the calls it has
  received before, which are its first argument.
\<close>

type_synonym 'a callback = "'a list \<Rightarrow> 'a \<Rightarrow> string option"

text \<open>
  The result of a streaming method: the returned pair, the calls made to the callback in
  order, and whether \<open>proc.wait()\<close> was reached.
\<close>

record 'a stream_run =
  outcome :: "bool \<times> string"
  calls :: "'a list"
  waited :: bool

text \<open>
  The body of the loop of \<open>pull_model\<close> under \<open>if on_progress:\<close>: the new value of
  \<open>last_percent\<close>. \<open>int\<close> cannot fail on a group of one to three digits.
\<close>

definition update_percent :: "int \<Rightarrow> string \<Rightarrow> int" where
  "update_percent last_percent line =
     (case search_percent line of
        Some g \<Rightarrow> max last_percent (min 100 (int_of_digits g))
      | None \<Rightarrow> last_percent)"

fun pull_loop ::
  "(int \<times> string) callback option \<Rightarrow> int \<Rightarrow> (int \<times> string) list \<Rightarrow> string list \<Rightarrow>
     (int \<times> string) list \<times> string option" where
  "pull_loop on_progress last_percent cs [] = (cs, None)"
| "pull_loop on_progress last_percent cs (raw # rest) =
     (let line = rstrip_chars [CHR 0x0D, CHR 0x0A] raw in
      case on_progress of
        None \<Rightarrow> pull_loop on_progress last_percent cs rest
      | Some f \<Rightarrow>
         (let p = update_percent last_percent line in
          case f cs (p, line) of
            Some msg \<Rightarrow> (cs @ [(p, line)], Some msg)
          | None \<Rightarrow> pull_loop on_progress p (cs @ [(p, line)]) rest))"

definition pull_model ::
  "string option \<Rightarrow> string \<Rightarrow> (string option list \<Rightarrow> popen_result) \<Rightarrow>
     (int \<times> string) callback option \<Rightarrow> (int \<times> string) stream_run" where
  "pull_model binary_path model_ref popen on_progress =
     (case popen [binary_path, Some ''pull'', Some model_ref] of
        PopenRaised msg \<Rightarrow> \<lparr>outcome = (False, msg), calls = [], waited = False\<rparr>
      | PopenStarted lines code \<Rightarrow>
         (case pull_loop on_progress 0 [] lines of
            (cs, Some msg) \<Rightarrow> \<lparr>outcome = (False, msg), calls = cs, waited = False\<rparr>
          | (cs, None) \<Rightarrow>
             \<lparr>outcome =
                (if code = 0 then (True, ''Pull complete'')
                 else (False, ''Pull failed (code '' @ str_int code @ '')'')),
              calls = cs, waited = True\<rparr>))"

text \<open>
  \<open>run_model_once\<close>: every line is appended to \<open>captured\<close> and then handed to
  \<open>on_stream\<close>; the returned text is the join of \<open>captured\<close>.
\<close>

fun run_loop ::
  "string callback option \<Rightarrow> string list \<Rightarrow> string list \<Rightarrow> string list \<Rightarrow>
     string list \<times> string list \<times> string option" where
  "run_loop on_stream captured cs [] = (captured, cs, None)"
| "run_loop on_stream captured cs (line # rest) =
     (case on_stream of
        None \<Rightarrow> run_loop on_stream (captured @ [line]) cs rest
      | Some f \<Rightarrow>
         (case f cs line of
            Some msg \<Rightarrow> (captured @ [line], cs @ [line], Some msg)
          | None \<Rightarrow> run_loop on_stream (captured @ [line]) (cs @ [line]) rest))"

definition run_model_once ::
  "string option \<Rightarrow> string \<Rightarrow> string \<Rightarrow> (string option list \<Rightarrow> popen_result) \<Rightarrow>
     string callback option \<Rightarrow> string stream_run" where
  "run_model_once binary_path model_name prompt popen on_stream =
     (case popen [binary_path, Some ''run'', Some model_name, Some ''--nowordwrap'', Some prompt] of
        PopenRaised msg \<Rightarrow> \<lparr>outcome = (False, msg), calls = [], waited = False\<rparr>
      | PopenStarted lines code \<Rightarrow>
         (case run_loop on_stream [] [] lines of
            (captured, cs, Some msg) \<Rightarrow> \<lparr>outcome = (False, msg), calls = cs, waited = False\<rparr>
          | (captured, cs, None) \<Rightarrow>
             \<lparr>outcome = (code = 0, concat captured), calls = cs, waited = True\<rparr>))"

text \<open>\<open>prune\<close> has no callback: it collects the lines and joins them.\<close>

definition prune :: "string option \<Rightarrow> (string option list \<Rightarrow> popen_result) \<Rightarrow> bool \<times> string" where
  "prune binary_path popen =
     (case popen [binary_path, Some ''prune''] of
        PopenRaised msg \<Rightarrow> (False, msg)
      | PopenStarted lines code \<Rightarrow> (code = 0, concat lines))"

section \<open>Creating a model from a Modelfile\<close>

text \<open>
  The file system is a map from paths to contents. \<open>NamedTemporaryFile(delete=False)\<close>
  either raises or creates an empty file at a path the system chooses; writing the text
  and closing the file either succeeds or raises after some of the text has reached the
  file. \<open>os.unlink\<close> raises on a missing path; on an existing one the system either
  removes it or refuses (a file that is still open elsewhere, a directory that may not be
  written) and the call raises, the files being as they were.
\<close>

type_synonym files = "string \<rightharpoonup> string"

datatype tmp_result = TmpRaised string | TmpCreated string

datatype write_result = WriteRaised string string | WriteOk

datatype unlink_result = UnlinkRaised string | UnlinkOk

definition os_unlink :: "unlink_result \<Rightarrow> string \<Rightarrow> files \<Rightarrow> string + files" where
  "os_unlink ul path fs =
     (if path \<notin> dom fs then Inl ''FileNotFoundError''
      else (case ul of
              UnlinkRaised msg \<Rightarrow> Inl msg
            | UnlinkOk \<Rightarrow> Inr (fs(path := None))))"

fun create_loop ::
  "string callback option \<Rightarrow> string list \<Rightarrow> string list \<Rightarrow> string list \<times> string option" where
  "create_loop on_output cs [] = (cs, None)"
| "create_loop on_output cs (raw # rest) =
     (case on_output of
        None \<Rightarrow> create_loop on_output cs rest
      | Some f \<Rightarrow>
         (let line = rstrip_chars [CHR 0x0D, CHR 0x0A] raw in
          case f cs line of
            Some msg \<Rightarrow> (cs @ [line], Some msg)
          | None \<Rightarrow> create_loop on_output (cs @ [line]) rest))"

text \<open>The inner \<open>try\<close> block, whose \<open>finally\<close> clause follows it on every way out.\<close>

definition create_body ::
  "string option \<Rightarrow> string \<Rightarrow> string \<Rightarrow> (string option list \<Rightarrow> popen_result) \<Rightarrow>
     string callback option \<Rightarrow> string stream_run" where
  "create_body binary_path name mf_path popen on_output =
     (case popen [binary_path, Some ''create'', Some name, Some ''-f'', Some mf_path] of
        PopenRaised msg \<Rightarrow> \<lparr>outcome = (False, msg), calls = [], waited = False\<rparr>
      | PopenStarted lines code \<Rightarrow>
         (case create_loop on_output [] lines of
            (cs, Some msg) \<Rightarrow> \<lparr>outcome = (False, msg), calls = cs, waited = False\<rparr>
          | (cs, None) \<Rightarrow>
             \<lparr>outcome =
                (if code = 0 then (True, ''Model created'')
                 else (False, ''Create failed (code '' @ str_int code @ '')'')),
              calls = cs, waited = True\<rparr>))"

text \<open>
  What a call of \<open>create_model_from_modelfile\<close> leaves: the returned pair with the
  calls made to \<open>on_output\<close>, the files, and the paths that \<open>os.unlink\<close> was called
  with. The text is written before the inner \<open>try\<close>; the \<open>finally\<close> clause calls
  \<open>os.unlink\<close> and passes over an exception of it.
\<close>

record create_run =
  created :: "string stream_run"
  files_after :: files
  unlinked :: "string list"

definition create_model_from_modelfile ::
  "string option \<Rightarrow> string \<Rightarrow> string \<Rightarrow> tmp_result \<Rightarrow> write_result \<Rightarrow> unlink_result \<Rightarrow>
     (string option list \<Rightarrow> popen_result) \<Rightarrow> string callback option \<Rightarrow> files \<Rightarrow> create_run" where
  "create_model_from_modelfile binary_path name modelfile_text mktemp wr ul popen on_output fs =
     (case mktemp of
        TmpRaised msg \<Rightarrow>
          \<lparr>created = \<lparr>outcome = (False, msg), calls = [], waited = False\<rparr>,
           files_after = fs, unlinked = []\<rparr>
      | TmpCreated mf_path \<Rightarrow>
         (case wr of
            WriteRaised msg partial \<Rightarrow>
              \<lparr>created = \<lparr>outcome = (False, msg), calls = [], waited = False\<rparr>,
               files_after = fs(mf_path \<mapsto> partial), unlinked = []\<rparr>
          | WriteOk \<Rightarrow>
             (let fs' = fs(mf_path \<mapsto> modelfile_text);
                  r = create_body binary_path name mf_path popen on_output
              in case os_unlink ul mf_path fs' of
                   Inl e \<Rightarrow> \<lparr>created = r, files_after = fs', unlinked = [mf_path]\<rparr>
                 | Inr fs'' \<Rightarrow> \<lparr>created = r, files_after = fs'', unlinked = [mf_path]\<rparr>)))"

section \<open>Terminal invocations\<close>

text \<open>
  \<open>subprocess.run\<close> with captured output is the environment as well: it raises (a
  timeout, a failure to start; the string is \<open>str(e)\<close>) or returns the exit code with
  \<open>stdout\<close> and \<open>stderr\<close>.
\<close>

datatype run_result = RunRaised string | RunDone int "string option" "string option"

type_synonym runner = "string option list \<Rightarrow> run_result"

text \<open>\<open>x or d\<close> for an optional string \<open>x\<close>.\<close>

definition or_str :: "string option \<Rightarrow> string \<Rightarrow> string" where
  "or_str x d = (case x of None \<Rightarrow> d | Some s \<Rightarrow> if s = [] then d else s)"

text \<open>\<open>not self.binary_path\<close>\<close>

definition unresolved :: "string option \<Rightarrow> bool" where
  "unresolved binary_path \<longleftrightarrow> (case binary_path of None \<Rightarrow> True | Some p \<Rightarrow> p = [])"

definition ensure_available :: "string option \<Rightarrow> runner \<Rightarrow> bool \<times> string" where
  "ensure_available binary_path run =
     (if unresolved binary_path then
        (False, ''Ollama binary not found. Install from https://ollama.com/download'')
      else
        (case run [binary_path, Some ''--version''] of
           RunRaised msg \<Rightarrow> (False, msg)
         | RunDone code out err \<Rightarrow>
            if code = 0 then (True, strip (or_str out []))
            else (False, strip (or_str err ''Cannot execute ollama''))))"

definition remove_model :: "string option \<Rightarrow> string \<Rightarrow> runner \<Rightarrow> bool \<times> string" where
  "remove_model binary_path model_name run =
     (case run [binary_path, Some ''rm'', Some model_name] of
        RunRaised msg \<Rightarrow> (False, msg)
      | RunDone code out err \<Rightarrow>
         if code = 0 then (True, strip (or_str out ''Removed''))
         else (False, strip (or_str err ''Failed to remove'')))"

definition stop_model :: "string option \<Rightarrow> string \<Rightarrow> runner \<Rightarrow> bool \<times> string" where
  "stop_model binary_path model_name run =
     (case run [binary_path, Some ''stop'', Some model_name] of
        RunRaised msg \<Rightarrow> (False, msg)
      | RunDone code out err \<Rightarrow>
         if code = 0 then (True, strip (or_str out ''Stopped''))
         else (False, strip (or_str err ''Failed to stop'')))"

text \<open>
  \<open>show_modelfile\<close> returns \<open>Tuple[bool, Optional[str]]\<close>. The result is a sum so that
  an exception leaving the method would be \<open>Inl\<close>.
\<close>

definition show_modelfile ::
  "string option \<Rightarrow> string \<Rightarrow> runner \<Rightarrow> string + (bool \<times> string option)" where
  "show_modelfile binary_path model_name run =
     (case run [binary_path, Some ''show'', Some model_name, Some ''--modelfile''] of
        RunRaised msg \<Rightarrow> Inr (False, Some msg)
      | RunDone code out err \<Rightarrow>
         if code = 0 then Inr (True, out) else Inr (False, err))"

section \<open>Listing the models\<close>

text \<open>
  \<open>s.split()\<close>: the maximal runs of characters that are not whitespace.
\<close>

fun split_acc :: "string \<Rightarrow> string \<Rightarrow> string list" where
  "split_acc cur [] = (if cur = [] then [] else [rev cur])"
| "split_acc cur (c # cs) =
     (if isspace c then (if cur = [] then split_acc [] cs else rev cur # split_acc [] cs)
      else split_acc (c # cur) cs)"

definition split :: "string \<Rightarrow> string list" where
  "split s = split_acc [] s"

text \<open>
  \<open>s.splitlines()\<close>: a line ends at a line boundary, which is not kept; a carriage
  return followed by a line feed is one boundary; no empty line follows the last boundary.
\<close>

definition is_linebreak :: "char \<Rightarrow> bool" where
  "is_linebreak c \<longleftrightarrow> c \<in> set [CHR 0x0A, CHR 0x0B, CHR 0x0C, CHR 0x0D,
      CHR 0x1C, CHR 0x1D, CHR 0x1E, CHR 0x85]"

fun splitlines_acc :: "string \<Rightarrow> string \<Rightarrow> string list" where
  "splitlines_acc cur [] = (if cur = [] then [] else [rev cur])"
| "splitlines_acc cur (c # cs) =
     (if c = CHR 0x0D then
        (case cs of
           [] \<Rightarrow> [rev cur]
         | d # ds \<Rightarrow> if d = CHR 0x0A then rev cur # splitlines_acc [] ds
                     else rev cur # splitlines_acc [] cs)
      else if is_linebreak c then rev cur # splitlines_acc [] cs
      else splitlines_acc (c # cur) cs)"

definition splitlines :: "string \<Rightarrow> string list" where
  "splitlines s = splitlines_acc [] s"

text \<open>\<open>sep.join(parts)\<close>\<close>

fun join :: "string \<Rightarrow> string list \<Rightarrow> string" where
  "join sep [] = []"
| "join sep [p] = p"
| "join sep (p # q # ps) = p @ sep @ join sep (q # ps)"

text \<open>\<open>s.split(":")\<close> and \<open>s.split(":", 1)\<close>, for a separator of one character.\<close>

fun split_on :: "char \<Rightarrow> string \<Rightarrow> string list" where
  "split_on sep [] = [[]]"
| "split_on sep (c # cs) =
     (if c = sep then [] # split_on sep cs
      else (case split_on sep cs of
              [] \<Rightarrow> [[c]]
            | p # ps \<Rightarrow> (c # p) # ps))"

definition split_on1 :: "char \<Rightarrow> string \<Rightarrow> string list" where
  "split_on1 sep s =
     (case dropWhile (\<lambda>c. c \<noteq> sep) s of
        [] \<Rightarrow> [s]
      | c # rest \<Rightarrow> [takeWhile (\<lambda>c. c \<noteq> sep) s, rest])"

text \<open>
  \<open>re.search(r"q\d[^-]*", variant, flags=re.IGNORECASE)\<close>: the leftmost \<open>q\<close> or \<open>Q\<close>
  that a digit follows, with everything after it up to the next hyphen. The result is
  group 0.
\<close>

definition match_quant :: "string \<Rightarrow> string option" where
  "match_quant s =
     (case s of
        q # d # rest \<Rightarrow>
          if (q = CHR ''q'' \<or> q = CHR ''Q'') \<and> isdigit d
          then Some (q # d # takeWhile (\<lambda>c. c \<noteq> CHR ''-'') rest) else None
      | _ \<Rightarrow> None)"

fun search_quant :: "string \<Rightarrow> string option" where
  "search_quant [] = None"
| "search_quant (c # cs) =
     (case match_quant (c # cs) of
        Some m \<Rightarrow> Some m
      | None \<Rightarrow> search_quant cs)"

text \<open>
  What \<open>json.loads\<close> returns. An object is the list of the items of the \<open>dict\<close>, in
  order. Of a float only its truth value is kept (whether it is not zero):
  \<open>list_models\<close> stores numbers and tests them, and never computes with them.
\<close>

datatype json =
    JNull
  | JBool bool
  | JInt int
  | JFloat bool
  | JStr string
  | JArr "json list"
  | JObj "(string \<times> json) list"

datatype exn = TypeError | AttributeError | IndexError | JSONDecodeError | CalledProcessError
  | RunError string

definition ebind :: "exn + 'a \<Rightarrow> ('a \<Rightarrow> exn + 'b) \<Rightarrow> exn + 'b" where
  "ebind m f = (case m of Inl e \<Rightarrow> Inl e | Inr x \<Rightarrow> f x)"

text \<open>The truth value of a Python object.\<close>

fun truthy :: "json \<Rightarrow> bool" where
  "truthy JNull = False"
| "truthy (JBool b) = b"
| "truthy (JInt i) = (i \<noteq> 0)"
| "truthy (JFloat nz) = nz"
| "truthy (JStr s) = (s \<noteq> [])"
| "truthy (JArr xs) = (xs \<noteq> [])"
| "truthy (JObj kvs) = (kvs \<noteq> [])"

text \<open>\<open>for item in data\<close>\<close>

fun iter_json :: "json \<Rightarrow> exn + json list" where
  "iter_json (JArr xs) = Inr xs"
| "iter_json (JObj kvs) = Inr (map (\<lambda>kv. JStr (fst kv)) kvs)"
| "iter_json (JStr s) = Inr (map (\<lambda>c. JStr [c]) s)"
| "iter_json _ = Inl TypeError"

text \<open>\<open>item.get(key, default)\<close>: only a \<open>dict\<close> has the method.\<close>

fun dict_get :: "json \<Rightarrow> string \<Rightarrow> json \<Rightarrow> exn + json" where
  "dict_get (JObj kvs) key dflt = Inr (case map_of kvs key of Some v \<Rightarrow> v | None \<Rightarrow> dflt)"
| "dict_get _ key dflt = Inl AttributeError"

text \<open>\<open>":" in name\<close>\<close>

fun contains_colon :: "json \<Rightarrow> exn + bool" where
  "contains_colon (JStr s) = Inr (CHR '':'' \<in> set s)"
| "contains_colon (JArr xs) = Inr (JStr '':'' \<in> set xs)"
| "contains_colon (JObj kvs) = Inr ('':'' \<in> set (map fst kvs))"
| "contains_colon _ = Inl TypeError"

text \<open>\<open>name.split(":")\<close> and \<open>name.split(":", 1)\<close>: only a \<open>str\<close> has the method.\<close>

fun str_split :: "json \<Rightarrow> exn + string list" where
  "str_split (JStr s) = Inr (split_on CHR '':'' s)"
| "str_split _ = Inl AttributeError"

fun str_split1 :: "json \<Rightarrow> exn + string list" where
  "str_split1 (JStr s) = Inr (split_on1 CHR '':'' s)"
| "str_split1 _ = Inl AttributeError"

definition index :: "'a list \<Rightarrow> nat \<Rightarrow> exn + 'a" where
  "index xs i = (if i < length xs then Inr (xs ! i) else Inl IndexError)"

record OllamaModelInfo =
  name :: json
  size' :: json
  modified :: json
  id' :: json
  family :: json
  quant :: string

text \<open>
  The derivation of \<open>family\<close> and \<open>quant\<close> from \<open>name\<close>, which the two paths of
  \<open>list_models\<close> repeat word for word.
\<close>

definition derive_family :: "json \<Rightarrow> exn + json" where
  "derive_family nm =
     ebind (contains_colon nm) (\<lambda>b.
       if b then ebind (str_split nm) (\<lambda>parts. ebind (index parts 0) (\<lambda>p. Inr (JStr p)))
       else Inr nm)"

definition derive_quant :: "json \<Rightarrow> exn + string" where
  "derive_quant nm =
     ebind (contains_colon nm) (\<lambda>b.
       if b then
         ebind (str_split1 nm) (\<lambda>parts. ebind (index parts 1) (\<lambda>variant.
           Inr (case search_quant variant of Some m \<Rightarrow> m | None \<Rightarrow> [])))
       else Inr [])"

text \<open>The body of the loop over the decoded items.\<close>

definition json_item :: "json \<Rightarrow> exn + OllamaModelInfo" where
  "json_item item =
     ebind (dict_get item ''name'' (JStr [])) (\<lambda>nm.
     ebind (dict_get item ''size'' (JStr [])) (\<lambda>sz.
     ebind (dict_get item ''modified'' (JStr [])) (\<lambda>md.
     ebind (dict_get item ''digest'' (JStr [])) (\<lambda>dg.
     ebind (if truthy dg then Inr dg else dict_get item ''id'' (JStr [])) (\<lambda>i.
     ebind (derive_family nm) (\<lambda>fam.
     ebind (derive_quant nm) (\<lambda>q.
       Inr \<lparr>name = nm, size' = sz, modified = md, id' = i, family = fam, quant = q\<rparr>)))))))"

text \<open>
  A loop appends to \<open>models\<close> until an item raises; the list as it is then stays in
  \<open>models\<close>.
\<close>

fun json_loop :: "OllamaModelInfo list \<Rightarrow> json list \<Rightarrow> OllamaModelInfo list \<times> exn option" where
  "json_loop models [] = (models, None)"
| "json_loop models (item # rest) =
     (case json_item item of
        Inl e \<Rightarrow> (models, Some e)
      | Inr m \<Rightarrow> json_loop (models @ [m]) rest)"

text \<open>The body of the loop over the data lines of the text listing.\<close>

definition text_item :: "string list \<Rightarrow> exn + OllamaModelInfo" where
  "text_item parts =
     ebind (index parts 0) (\<lambda>nm.
     ebind (index parts 1) (\<lambda>sz.
     ebind (derive_family (JStr nm)) (\<lambda>fam.
     ebind (derive_quant (JStr nm)) (\<lambda>q.
       Inr \<lparr>name = JStr nm, size' = JStr sz, modified = JStr (join '' '' (drop 2 parts)),
            id' = JStr [], family = fam, quant = q\<rparr>))))"

fun text_loop :: "OllamaModelInfo list \<Rightarrow> string list \<Rightarrow> OllamaModelInfo list \<times> exn option" where
  "text_loop models [] = (models, None)"
| "text_loop models (line # rest) =
     (let parts = split line in
      if length parts < 4 then text_loop models rest
      else (case text_item parts of
              Inl e \<Rightarrow> (models, Some e)
            | Inr m \<Rightarrow> text_loop (models @ [m]) rest))"

text \<open>
  Each \<open>try\<close> block either returns, or is left for the code after it: by an exception,
  or because \<open>text\<close> was empty. \<open>models\<close> is what it is at that moment.
\<close>

datatype attempt = Return "OllamaModelInfo list" | Raised "OllamaModelInfo list" exn
  | Skipped "OllamaModelInfo list"

text \<open>\<open>subprocess.run(..., check=True)\<close>\<close>

definition run_checked :: "runner \<Rightarrow> string option list \<Rightarrow> exn + string option" where
  "run_checked run argv =
     (case run argv of
        RunRaised msg \<Rightarrow> Inl (RunError msg)
      | RunDone code out err \<Rightarrow> if code = 0 then Inr out else Inl CalledProcessError)"

definition list_models_json ::
  "string option \<Rightarrow> runner \<Rightarrow> (string \<Rightarrow> json option) \<Rightarrow> attempt" where
  "list_models_json binary_path run loads =
     (case run_checked run [binary_path, Some ''list'', Some ''--format'', Some ''json''] of
        Inl e \<Rightarrow> Raised [] e
      | Inr out \<Rightarrow>
         (let text = strip (or_str out []) in
          if text = [] then Skipped []
          else (case loads text of
                  None \<Rightarrow> Raised [] JSONDecodeError
                | Some data \<Rightarrow>
                   (case iter_json data of
                      Inl e \<Rightarrow> Raised [] e
                    | Inr items \<Rightarrow>
                       (case json_loop [] items of
                          (models, Some e) \<Rightarrow> Raised models e
                        | (models, None) \<Rightarrow> Return models)))))"

definition list_models_text :: "OllamaModelInfo list \<Rightarrow> string option \<Rightarrow> runner \<Rightarrow> attempt" where
  "list_models_text models binary_path run =
     (case run_checked run [binary_path, Some ''list''] of
        Inl e \<Rightarrow> Raised models e
      | Inr out \<Rightarrow>
         (let lines = filter (\<lambda>ln. strip ln \<noteq> []) (splitlines (or_str out [])) in
          if length lines \<le> 1 then Return models
          else (case text_loop models (drop 1 lines) of
                  (models', Some e) \<Rightarrow> Raised models' e
                | (models', None) \<Rightarrow> Return models')))"

text \<open>
  \<open>list_models\<close>. Both handlers catch \<open>Exception\<close>: the first passes on to the text
  listing, the second logs and returns \<open>models\<close>. The result is a sum so that an exception
  leaving the method would be \<open>Inl\<close>.
\<close>

definition list_models ::
  "string option \<Rightarrow> runner \<Rightarrow> (string \<Rightarrow> json option) \<Rightarrow> exn + OllamaModelInfo list" where
  "list_models binary_path run loads =
     (if unresolved binary_path then Inr []
      else
        (case list_models_json binary_path run loads of
           Return models \<Rightarrow> Inr models
         | Raised models e \<Rightarrow>
            (case list_models_text models binary_path run of
               Return models' \<Rightarrow> Inr models'
             | Raised models' e' \<Rightarrow> Inr models'
             | Skipped models' \<Rightarrow> Inr models')
         | Skipped models \<Rightarrow>
            (case list_models_text models binary_path run of
               Return models' \<Rightarrow> Inr models'
             | Raised models' e' \<Rightarrow> Inr models'
             | Skipped models' \<Rightarrow> Inr models')))"

text \<open>
  The reading of a data line that the specification gives, to compare with
  \<open>text_item\<close>: the name is all leading tokens up to the last three, joined; the first of
  the three trailing tokens is the size; the last two, joined, are the modification time.
\<close>

definition spec_text_fields :: "string list \<Rightarrow> string \<times> string \<times> string" where
  "spec_text_fields parts =
     (let n = length parts in
      (join '' '' (take (n - 3) parts), parts ! (n - 3), join '' '' (drop (n - 2) parts)))"

section \<open>Predicates of the properties\<close>

text \<open>A string with no whitespace at its start and none at its end.\<close>

definition no_outer_space :: "string \<Rightarrow> bool" where
  "no_outer_space s \<longleftrightarrow> s = [] \<or> (\<not> isspace (hd s) \<and> \<not> isspace (last s))"

text \<open>A callback that returns normally on every call, or no callback at all.\<close>

definition never_raises :: "'a callback option \<Rightarrow> bool" where
  "never_raises cb \<longleftrightarrow> (case cb of None \<Rightarrow> True | Some f \<Rightarrow> \<forall>h a. f h a = None)"

text \<open>
  The derivation rule of the specification, for a name that is a string: the family is
  what stands before the first colon (the whole name when there is none), the
  quantization is the token that the pattern finds in what stands after the first colon
  (empty when there is no colon or no match).
\<close>

definition spec_family :: "string \<Rightarrow> string" where
  "spec_family s = takeWhile (\<lambda>c. c \<noteq> CHR '':'') s"

definition spec_quant :: "string \<Rightarrow> string" where
  "spec_quant s =
     (case dropWhile (\<lambda>c. c \<noteq> CHR '':'') s of
        [] \<Rightarrow> []
      | c # variant \<Rightarrow> (case search_quant variant of Some m \<Rightarrow> m | None \<Rightarrow> []))"

text \<open>
  A record whose \<open>family\<close> and \<open>quant\<close> are the ones derived from its \<open>name\<close>. A name
  that is not a string (the decoded listing may hold anything) has no colon to split at:
  the family is then the name itself and the quantization is empty.
\<close>

definition derived_from_name :: "OllamaModelInfo \<Rightarrow> bool" where
  "derived_from_name m \<longleftrightarrow>
     (case name m of
        JStr s \<Rightarrow> family m = JStr (spec_family s) \<and> quant m = spec_quant s
      | _ \<Rightarrow> family m = name m \<and> quant m = [])"

text \<open>What \<open>list_models\<close> returns when an attempt is over.\<close>

fun models_of :: "attempt \<Rightarrow> OllamaModelInfo list" where
  "models_of (Return models) = models"
| "models_of (Raised models e) = models"
| "models_of (Skipped models) = models"

section \<open>Properties of the progress pattern\<close>

lemma match_percent_n_sound:
  assumes "match_percent_n n s = Some g"
  shows "length g = n \<and> list_all isdigit g \<and> (\<exists>ws. s = g @ CHR ''%'' # ws \<and> list_all isspace ws)"
proof -
  from assms have c: "n \<le> length s" "list_all isdigit (take n s)"
    by (auto simp: match_percent_n_def split: if_splits)
  with assms obtain rest where
    r: "drop n s = CHR ''%'' # rest" "list_all isspace rest" "g = take n s"
    by (auto simp: match_percent_n_def split: if_splits list.splits)
  have "s = take n s @ drop n s" by simp
  with r c show ?thesis by (metis length_take min.absorb2)
qed

lemma match_percent_sound:
  "match_percent s = Some g \<Longrightarrow>
   1 \<le> length g \<and> length g \<le> 3 \<and> list_all isdigit g \<and>
   (\<exists>ws. s = g @ CHR ''%'' # ws \<and> list_all isspace ws)"
  by (auto simp: match_percent_def split: option.splits dest!: match_percent_n_sound)

text \<open>
  A match is a group of one to three digits that a percent sign follows, with nothing but
  whitespace after it.
\<close>

lemma search_percent_sound:
  "search_percent line = Some g \<Longrightarrow>
   1 \<le> length g \<and> length g \<le> 3 \<and> list_all isdigit g \<and>
   (\<exists>pre ws. line = pre @ g @ CHR ''%'' # ws \<and> list_all isspace ws)"
proof (induction line)
  case Nil
  then show ?case by simp
next
  case (Cons c cs)
  show ?case
  proof (cases "match_percent (c # cs)")
    case None
    with Cons.prems have "search_percent cs = Some g" by simp
    from Cons.IH[OF this] obtain pre ws where
      "cs = pre @ g @ CHR ''%'' # ws" "list_all isspace ws" and
      g: "1 \<le> length g" "length g \<le> 3" "list_all isdigit g" by blast
    then have "c # cs = (c # pre) @ g @ CHR ''%'' # ws \<and> list_all isspace ws" by simp
    with g show ?thesis by blast
  next
    case (Some h)
    with Cons.prems have "h = g" by simp
    with Some match_percent_sound[of "c # cs" g] show ?thesis
      by (metis append_Nil)
  qed
qed

lemma match_percent_one:
  "isdigit d \<Longrightarrow> list_all isspace ws \<Longrightarrow> match_percent (d # CHR ''%'' # ws) \<noteq> None"
  by (simp add: match_percent_def match_percent_n_def split: option.splits)

lemma search_percent_complete:
  "isdigit d \<Longrightarrow> list_all isspace ws \<Longrightarrow> search_percent (pre @ d # CHR ''%'' # ws) \<noteq> None"
proof (induction pre)
  case Nil
  then show ?case using match_percent_one[of d ws] by (auto split: option.splits)
next
  case (Cons c pre)
  then show ?case by (auto split: option.splits)
qed

text \<open>
  There is no match exactly when the line is not a digit and a percent sign followed by
  whitespace only.
\<close>

lemma search_percent_None_iff:
  "search_percent line = None \<longleftrightarrow>
   \<not> (\<exists>pre d ws. line = pre @ d # CHR ''%'' # ws \<and> isdigit d \<and> list_all isspace ws)"
proof
  assume "search_percent line = None"
  then show "\<not> (\<exists>pre d ws. line = pre @ d # CHR ''%'' # ws \<and> isdigit d \<and> list_all isspace ws)"
    using search_percent_complete by blast
next
  assume n: "\<not> (\<exists>pre d ws. line = pre @ d # CHR ''%'' # ws \<and> isdigit d \<and> list_all isspace ws)"
  show "search_percent line = None"
  proof (rule ccontr)
    assume "search_percent line \<noteq> None"
    then obtain g where "search_percent line = Some g" by blast
    from search_percent_sound[OF this] obtain pre ws where
      l: "line = pre @ g @ CHR ''%'' # ws" "list_all isspace ws" and
      g: "1 \<le> length g" "list_all isdigit g" by blast
    from g have ne: "g \<noteq> []" by auto
    then have "g = butlast g @ [last g]" by simp
    with l have "line = (pre @ butlast g) @ last g # CHR ''%'' # ws"
      by (metis append.assoc append_Cons append_Nil)
    moreover have "isdigit (last g)" using g ne by (simp add: list_all_iff)
    ultimately show False using n l by blast
  qed
qed

lemma int_of_digits_snoc: "int_of_digits (g @ [c]) = 10 * int_of_digits g + digit_val c"
  by (simp add: int_of_digits_def)

lemma digit_val_range: "isdigit c \<Longrightarrow> 0 \<le> digit_val c \<and> digit_val c \<le> 9"
  by (auto simp: isdigit_def digit_val_def)

lemma int_of_digits_bound:
  "list_all isdigit g \<Longrightarrow> 0 \<le> int_of_digits g \<and> int_of_digits g < 10 ^ length g"
proof (induction g rule: rev_induct)
  case Nil
  then show ?case by (simp add: int_of_digits_def)
next
  case (snoc c g)
  then have "0 \<le> int_of_digits g" "int_of_digits g < 10 ^ length g" by simp_all
  moreover have "0 \<le> digit_val c" "digit_val c \<le> 9"
    using snoc.prems digit_val_range by simp_all
  ultimately show ?case by (simp add: int_of_digits_snoc)
qed

lemma update_percent_ge: "last_percent \<le> update_percent last_percent line"
  by (simp add: update_percent_def split: option.splits)

lemma update_percent_le: "last_percent \<le> 100 \<Longrightarrow> update_percent last_percent line \<le> 100"
  by (simp add: update_percent_def split: option.splits)

lemma pull_loop_sorted:
  "sorted (map fst cs) \<Longrightarrow> \<forall>c \<in> set cs. fst c \<le> lp \<Longrightarrow>
   sorted (map fst (fst (pull_loop cb lp cs lines)))"
proof (induction lines arbitrary: lp cs)
  case Nil
  then show ?case by simp
next
  case (Cons raw rest)
  let ?line = "rstrip_chars [CHR 0x0D, CHR 0x0A] raw"
  let ?p = "update_percent lp ?line"
  show ?case
  proof (cases cb)
    case None
    with Cons show ?thesis by simp
  next
    case (Some f)
    have ge: "lp \<le> ?p" by (rule update_percent_ge)
    have s: "sorted (map fst (cs @ [(?p, ?line)]))"
      using Cons.prems ge by (auto simp: sorted_append)
    have b: "\<forall>c \<in> set (cs @ [(?p, ?line)]). fst c \<le> ?p"
      using Cons.prems ge by auto
    show ?thesis
    proof (cases "f cs (?p, ?line)")
      case None
      with Some Cons.IH[OF s b] show ?thesis by (simp add: Let_def)
    next
      case (Some msg)
      with \<open>cb = Some f\<close> s show ?thesis by (simp add: Let_def)
    qed
  qed
qed

lemma pull_loop_range:
  "\<forall>c \<in> set cs. 0 \<le> fst c \<and> fst c \<le> 100 \<Longrightarrow> 0 \<le> lp \<Longrightarrow> lp \<le> 100 \<Longrightarrow>
   \<forall>c \<in> set (fst (pull_loop cb lp cs lines)). 0 \<le> fst c \<and> fst c \<le> 100"
proof (induction lines arbitrary: lp cs)
  case Nil
  from Nil(1) show ?case by simp
next
  case (Cons raw rest)
  let ?line = "rstrip_chars [CHR 0x0D, CHR 0x0A] raw"
  let ?p = "update_percent lp ?line"
  show ?case
  proof (cases cb)
    case None
    have "pull_loop cb lp cs (raw # rest) = pull_loop cb lp cs rest"
      using None by simp
    then show ?thesis using Cons.IH[OF Cons.prems] by simp
  next
    case (Some f)
    have ge: "0 \<le> ?p" using update_percent_ge[of lp ?line] Cons.prems(2) by linarith
    have le: "?p \<le> 100" using Cons.prems(3) by (rule update_percent_le)
    have b: "\<forall>c \<in> set (cs @ [(?p, ?line)]). 0 \<le> fst c \<and> fst c \<le> 100"
      using Cons.prems(1) ge le by simp
    show ?thesis
    proof (cases "f cs (?p, ?line)")
      case None
      have "pull_loop cb lp cs (raw # rest) = pull_loop cb ?p (cs @ [(?p, ?line)]) rest"
        using Some None by (simp add: Let_def)
      then show ?thesis using Cons.IH[OF b ge le] by simp
    next
      case (Some msg)
      have "fst (pull_loop cb lp cs (raw # rest)) = cs @ [(?p, ?line)]"
        using \<open>cb = Some f\<close> Some by (simp add: Let_def)
      then show ?thesis using b by simp
    qed
  qed
qed

lemma calls_pull_model:
  "calls (pull_model binary_path model_ref popen on_progress) =
     (case popen [binary_path, Some ''pull'', Some model_ref] of
        PopenRaised msg \<Rightarrow> []
      | PopenStarted lines code \<Rightarrow> fst (pull_loop on_progress 0 [] lines))"
proof (cases "popen [binary_path, Some ''pull'', Some model_ref]")
  case (PopenRaised msg)
  then show ?thesis by (simp add: pull_model_def)
next
  case (PopenStarted lines code)
  obtain cs r where p: "pull_loop on_progress 0 [] lines = (cs, r)" by (cases "pull_loop on_progress 0 [] lines")
  with PopenStarted show ?thesis by (cases r) (simp_all add: pull_model_def)
qed

lemmas progress_eval =
  pull_model_def Let_def rstrip_chars_def update_percent_def match_percent_def
  match_percent_n_def isdigit_def isspace_def int_of_digits_def digit_val_def

text \<open>
  C2. Within one call of \<open>pull_model\<close>, whatever lines the process writes, the percent
  values handed to the progress callback never decrease from one call to the next.
\<close>

theorem pull_percent_monotone:
  "sorted (map fst (calls (pull_model binary_path model_ref popen on_progress)))"
proof -
  have "sorted (map fst (fst (pull_loop on_progress 0 [] lines)))" for lines
    by (rule pull_loop_sorted) simp_all
  then show ?thesis
    by (simp add: calls_pull_model split: popen_result.splits)
qed

theorem pull_percent_monotone_witness:
  "calls (pull_model (Some ''ollama'') ''llama3''
      (\<lambda>argv. PopenStarted [''pulling 40%'', ''pulling manifest... 57%'', ''30%'', ''done''] 0)
      (Some (\<lambda>h a. None)))
     = [(40, ''pulling 40%''), (57, ''pulling manifest... 57%''), (57, ''30%''), (57, ''done'')]
   \<and> sorted (map fst (calls (pull_model (Some ''ollama'') ''llama3''
      (\<lambda>argv. PopenStarted [''pulling 40%'', ''pulling manifest... 57%'', ''30%'', ''done''] 0)
      (Some (\<lambda>h a. None)))))"
  using pull_percent_monotone [of "Some ''ollama''" "''llama3''"
      "\<lambda>argv. PopenStarted [''pulling 40%'', ''pulling manifest... 57%'', ''30%'', ''done''] 0"
      "Some (\<lambda>h a. None)"]
  by (simp add: progress_eval)

text \<open>
  C10. Every percent value that \<open>pull_model\<close> hands to the progress callback lies
  between 0 and 100, whatever lines the process writes; and a matched group has at most
  three digits, so that the number read from it is below 1000 before it is capped at 100.
\<close>

theorem pull_percent_range:
  "(\<forall>c \<in> set (calls (pull_model binary_path model_ref popen on_progress)).
      0 \<le> fst c \<and> fst c \<le> 100) \<and>
   (\<forall>line g. search_percent line = Some g \<longrightarrow>
      length g \<le> 3 \<and> 0 \<le> int_of_digits g \<and> int_of_digits g < 1000)"
proof
  have "\<forall>c \<in> set (fst (pull_loop on_progress 0 [] lines)). 0 \<le> fst c \<and> fst c \<le> 100" for lines
    by (rule pull_loop_range) simp_all
  then show "\<forall>c \<in> set (calls (pull_model binary_path model_ref popen on_progress)).
      0 \<le> fst c \<and> fst c \<le> 100"
    by (cases "popen [binary_path, Some ''pull'', Some model_ref]")
       (simp_all add: calls_pull_model)
next
  show "\<forall>line g. search_percent line = Some g \<longrightarrow>
      length g \<le> 3 \<and> 0 \<le> int_of_digits g \<and> int_of_digits g < 1000"
  proof (intro allI impI)
    fix line g
    assume "search_percent line = Some g"
    from search_percent_sound[OF this] have g: "length g \<le> 3" "list_all isdigit g" by simp_all
    from int_of_digits_bound[OF g(2)] have b: "0 \<le> int_of_digits g" "int_of_digits g < 10 ^ length g"
      by simp_all
    have "(10::int) ^ length g \<le> 10 ^ 3" using g(1) by (intro power_increasing) simp_all
    with b g show "length g \<le> 3 \<and> 0 \<le> int_of_digits g \<and> int_of_digits g < 1000" by simp
  qed
qed

theorem pull_percent_range_witness:
  "calls (pull_model (Some ''ollama'') ''llama3''
      (\<lambda>argv. PopenStarted [''starting'', ''12345%'', ''7%''] 1) (Some (\<lambda>h a. None)))
     = [(0, ''starting''), (100, ''12345%''), (100, ''7%'')]
   \<and> list_all (\<lambda>c. 0 \<le> fst c \<and> fst c \<le> 100)
       (calls (pull_model (Some ''ollama'') ''llama3''
          (\<lambda>argv. PopenStarted [''starting'', ''12345%'', ''7%''] 1) (Some (\<lambda>h a. None))))
   \<and> search_percent ''12345%'' = Some ''345'' \<and> int_of_digits ''345'' = 345"
  using pull_percent_range [of "Some ''ollama''" "''llama3''"
      "\<lambda>argv. PopenStarted [''starting'', ''12345%'', ''7%''] 1" "Some (\<lambda>h a. None)"]
  by (simp add: progress_eval)

lemma percent_not_space: "\<not> isspace CHR ''%''"
  by (simp add: isspace_def)

lemma percent_not_digit: "\<not> isdigit CHR ''%''"
  by (simp add: isdigit_def)

lemma digit_not_space: "isdigit c \<Longrightarrow> \<not> isspace c"
  by (auto simp: isdigit_def isspace_def)

text \<open>The percent sign that only whitespace follows is the last one of the line.\<close>

lemma last_percent_unique:
  assumes "xs @ CHR ''%'' # ws = ys @ CHR ''%'' # ws'"
    and "list_all isspace ws" and "list_all isspace ws'"
  shows "xs = ys \<and> ws = ws'"
proof -
  have r: "rev ws @ CHR ''%'' # rev xs = rev ws' @ CHR ''%'' # rev ys"
    using arg_cong[OF assms(1), of rev] by simp
  have a: "takeWhile isspace (rev ws @ CHR ''%'' # rev xs) = rev ws"
    using assms(2) percent_not_space by (simp add: takeWhile_tail list_all_iff)
  have b: "takeWhile isspace (rev ws' @ CHR ''%'' # rev ys) = rev ws'"
    using assms(3) percent_not_space by (simp add: takeWhile_tail list_all_iff)
  from r a b have w: "ws = ws'" by simp
  with assms(1) show ?thesis by simp
qed

lemma match_percent_n_exact:
  assumes "list_all isdigit g" and "list_all isspace ws"
  shows "match_percent_n n (g @ CHR ''%'' # ws) = (if n = length g then Some g else None)"
proof (cases "n = length g")
  case True
  with assms show ?thesis by (simp add: match_percent_n_def)
next
  case False
  show ?thesis
  proof (rule ccontr)
    assume "match_percent_n n (g @ CHR ''%'' # ws) \<noteq> (if n = length g then Some g else None)"
    with False obtain h where "match_percent_n n (g @ CHR ''%'' # ws) = Some h" by auto
    from match_percent_n_sound[OF this] obtain ws' where
      h: "length h = n" "g @ CHR ''%'' # ws = h @ CHR ''%'' # ws'" "list_all isspace ws'"
      by blast
    from last_percent_unique[OF h(2) assms(2) h(3)] have "g = h" by simp
    with h(1) False show False by simp
  qed
qed

lemma match_percent_exact:
  assumes "list_all isdigit g" and "list_all isspace ws" and "1 \<le> length g" and "length g \<le> 3"
  shows "match_percent (g @ CHR ''%'' # ws) = Some g"
proof -
  from assms(3,4) have "length g = 1 \<or> length g = 2 \<or> length g = 3" by arith
  then show ?thesis
    by (auto simp: match_percent_def match_percent_n_exact[OF assms(1,2)])
qed

text \<open>
  The group that the search returns: the digits that stand right before the last percent
  sign, the last three of them when there are more.
\<close>

lemma search_percent_exact:
  assumes "list_all isdigit g" and "list_all isspace ws" and "1 \<le> length g" and "length g \<le> 3"
    and "length g < 3 \<longrightarrow> pre = [] \<or> \<not> isdigit (last pre)"
  shows "search_percent (pre @ g @ CHR ''%'' # ws) = Some g"
  using assms(5)
proof (induction pre)
  case Nil
  from assms(3) obtain d ds where g: "g = d # ds" by (cases g) auto
  have "match_percent (g @ CHR ''%'' # ws) = Some g" by (rule match_percent_exact[OF assms(1-4)])
  with g show ?case by simp
next
  case (Cons c pre)
  have none: "match_percent (c # pre @ g @ CHR ''%'' # ws) = None"
  proof (rule ccontr)
    assume "match_percent (c # pre @ g @ CHR ''%'' # ws) \<noteq> None"
    then obtain h where "match_percent (c # pre @ g @ CHR ''%'' # ws) = Some h" by auto
    from match_percent_sound[OF this] obtain ws' where
      h: "length h \<le> 3" "list_all isdigit h"
         "c # pre @ g @ CHR ''%'' # ws = h @ CHR ''%'' # ws'" "list_all isspace ws'"
      by blast
    have "(c # pre @ g) @ CHR ''%'' # ws = h @ CHR ''%'' # ws'" using h(3) by simp
    from last_percent_unique[OF this assms(2) h(4)] have e: "h = (c # pre) @ g" by simp
    with h(1) have "length g < 3" by simp
    with Cons.prems have "\<not> isdigit (last (c # pre))" by simp
    moreover have "isdigit (last (c # pre))"
      using h(2) e last_in_set[of "c # pre"] by (auto simp: list_all_iff simp del: last.simps)
    ultimately show False by simp
  qed
  have "length g < 3 \<longrightarrow> pre = [] \<or> \<not> isdigit (last pre)"
    using Cons.prems by (cases pre) auto
  from Cons.IH[OF this] none show ?case by simp
qed

text \<open>
  C3, as the code has it. Take a line that ends, up to whitespace, with a percent sign
  that digits stand right before, and let the group be those digits, the last three of
  them when there are more: the new running maximum is the maximum of the old one and the
  number of the group capped at 100, so it is the maximum of the two when that number is
  at most 100. On every other line the running maximum is unchanged. In both cases the
  callback is called with the running maximum and the line.
\<close>

theorem update_percent_cases:
  "(line = pre @ g @ CHR ''%'' # ws \<and> list_all isspace ws \<and> list_all isdigit g \<and>
    1 \<le> length g \<and> length g \<le> 3 \<and> (length g < 3 \<longrightarrow> pre = [] \<or> \<not> isdigit (last pre)) \<longrightarrow>
      update_percent last_percent line = max last_percent (min 100 (int_of_digits g)) \<and>
      (int_of_digits g \<le> 100 \<longrightarrow>
         update_percent last_percent line = max last_percent (int_of_digits g))) \<and>
   (\<not> (\<exists>pre d ws. line = pre @ d # CHR ''%'' # ws \<and> isdigit d \<and> list_all isspace ws) \<longrightarrow>
      update_percent last_percent line = last_percent) \<and>
   (line = rstrip_chars [CHR 0x0D, CHR 0x0A] raw \<longrightarrow>
      pull_loop (Some f) last_percent cs [raw] =
        (cs @ [(update_percent last_percent line, line)],
         f cs (update_percent last_percent line, line)))"
proof (intro conjI impI)
  assume a: "line = pre @ g @ CHR ''%'' # ws \<and> list_all isspace ws \<and> list_all isdigit g \<and>
    1 \<le> length g \<and> length g \<le> 3 \<and> (length g < 3 \<longrightarrow> pre = [] \<or> \<not> isdigit (last pre))"
  then have s: "search_percent line = Some g"
    using search_percent_exact[of g ws pre] by simp
  then show u: "update_percent last_percent line = max last_percent (min 100 (int_of_digits g))"
    by (simp add: update_percent_def)
  assume "int_of_digits g \<le> 100"
  with u show "update_percent last_percent line = max last_percent (int_of_digits g)" by simp
next
  assume "\<not> (\<exists>pre d ws. line = pre @ d # CHR ''%'' # ws \<and> isdigit d \<and> list_all isspace ws)"
  then have "search_percent line = None" by (simp add: search_percent_None_iff)
  then show "update_percent last_percent line = last_percent"
    by (simp add: update_percent_def)
next
  assume "line = rstrip_chars [CHR 0x0D, CHR 0x0A] raw"
  then show "pull_loop (Some f) last_percent cs [raw] =
        (cs @ [(update_percent last_percent line, line)],
         f cs (update_percent last_percent line, line))"
    by (cases "f cs (update_percent last_percent line, line)") (simp_all add: Let_def)
qed

theorem update_percent_cases_witness:
  "''pulling manifest... 57%'' = ''pulling manifest... '' @ ''57'' @ CHR ''%'' # [] \<and>
   list_all isspace [] \<and> list_all isdigit ''57'' \<and> \<not> isdigit (last ''pulling manifest... '') \<and>
   int_of_digits ''57'' = 57 \<and>
   update_percent 40 ''pulling manifest... 57%'' = 57 \<and>
   ''pulling manifest... 57%'' = rstrip_chars [CHR 0x0D, CHR 0x0A] ''pulling manifest... 57%'' \<and>
   pull_loop (Some (\<lambda>h a. None)) 40 [] [''pulling manifest... 57%''] =
     ([(57, ''pulling manifest... 57%'')], None) \<and>
   update_percent 57 ''30%'' = 57 \<and>
   \<not> (\<exists>pre d ws. ''50% done'' = pre @ d # CHR ''%'' # ws \<and> isdigit d \<and> list_all isspace ws) \<and>
   update_percent 40 ''50% done'' = 40"
proof -
  have n: "\<not> (\<exists>pre d ws. ''50% done'' = pre @ d # CHR ''%'' # ws \<and> isdigit d \<and> list_all isspace ws)"
    using search_percent_None_iff[of "''50% done''"] by (simp add: progress_eval)
  have a: "update_percent 40 ''pulling manifest... 57%'' = 57"
    using update_percent_cases [of "''pulling manifest... 57%''" "''pulling manifest... ''" "''57''" "[]"
      40 "''pulling manifest... 57%''" "\<lambda>h a. None" "[]"]
    by (simp add: isdigit_def int_of_digits_def digit_val_def)
  have b: "update_percent 57 ''30%'' = 57"
    using update_percent_cases [of "''30%''" "[]" "''30''" "[]" 57 "''30%''" "\<lambda>h a. None" "[]"]
    by (simp add: isdigit_def int_of_digits_def digit_val_def)
  have c: "update_percent 40 ''50% done'' = 40"
    using n update_percent_cases [of "''50% done''" "[]" "''50''" "[]" 40 "''50% done''" "\<lambda>h a. None" "[]"]
    by simp
  have d: "pull_loop (Some (\<lambda>h a. None)) 40 [] [''pulling manifest... 57%''] =
     ([(57, ''pulling manifest... 57%'')], None)"
    using a update_percent_cases [of "''pulling manifest... 57%''" "''pulling manifest... ''" "''57''" "[]"
      40 "''pulling manifest... 57%''" "\<lambda>h a. None" "[]"]
    by (simp add: rstrip_chars_def)
  from n a b c d show ?thesis
    by (simp add: isdigit_def int_of_digits_def digit_val_def rstrip_chars_def)
qed

text \<open>
  The claim as it is written fails twice. The line \<open>150%\<close> carries no number between
  0 and 100, and yet the running maximum moves from 0 to 100. The line \<open>verifying\<close>
  carries no percentage at all, and yet the callback is given a percent value with it,
  the running maximum 57; so does the line \<open>30%\<close> of the specification's example.
\<close>

theorem update_percent_counterexample:
  "search_percent ''150%'' = Some ''150'' \<and> int_of_digits ''150'' = 150 \<and>
   update_percent 0 ''150%'' = 100 \<and> update_percent 0 ''150%'' \<noteq> 0 \<and>
   search_percent ''verifying'' = None \<and>
   pull_loop (Some (\<lambda>h a. None)) 57 [] [''verifying''] = ([(57, ''verifying'')], None)"
  by (simp add: progress_eval)

section \<open>Properties of the returned messages\<close>

lemma rstrip_last: "rstrip s \<noteq> [] \<Longrightarrow> \<not> isspace (last (rstrip s))"
  unfolding rstrip_def
  by (metis hd_dropWhile last_rev rev_is_Nil_conv rev_rev_ident)

lemma last_dropWhile: "dropWhile P xs \<noteq> [] \<Longrightarrow> last (dropWhile P xs) = last xs"
  by (induction xs) (auto split: if_splits)

lemma strip_no_outer_space: "no_outer_space (strip s)"
proof (cases "strip s = []")
  case True
  then show ?thesis by (simp add: no_outer_space_def)
next
  case False
  then have ne: "dropWhile isspace (rstrip s) \<noteq> []" by (simp add: strip_def lstrip_def)
  then have r: "rstrip s \<noteq> []" by auto
  have "\<not> isspace (hd (strip s))" using ne by (simp add: strip_def lstrip_def hd_dropWhile)
  moreover have "last (strip s) = last (rstrip s)"
    using ne by (simp add: strip_def lstrip_def last_dropWhile)
  ultimately show ?thesis using rstrip_last[OF r] by (simp add: no_outer_space_def)
qed

lemma str_nat_nonempty: "str_nat n \<noteq> []"
  by (subst str_nat.simps) simp

lemma pull_failed_no_outer_space: "no_outer_space (''Pull failed (code '' @ str_int code @ '')'')"
  by (simp add: no_outer_space_def isspace_def)

lemma create_failed_no_outer_space: "no_outer_space (''Create failed (code '' @ str_int code @ '')'')"
  by (simp add: no_outer_space_def isspace_def)

text \<open>
  C6, as the code has it. The message has no whitespace at either end when
  \<open>remove_model\<close> or \<open>stop_model\<close> gets a result from the process (it is stripped
  there), and when \<open>pull_model\<close> or the body of \<open>create_model_from_modelfile\<close>
  reaches \<open>proc.wait()\<close> (it is then one of the fixed messages).
\<close>

theorem message_stripped:
  "(run [binary_path, Some ''rm'', Some model_name] = RunDone code out err \<longrightarrow>
      no_outer_space (snd (remove_model binary_path model_name run))) \<and>
   (run [binary_path, Some ''stop'', Some model_name] = RunDone code out err \<longrightarrow>
      no_outer_space (snd (stop_model binary_path model_name run))) \<and>
   (waited (pull_model binary_path model_name popen on_progress) \<longrightarrow>
      no_outer_space (snd (outcome (pull_model binary_path model_name popen on_progress)))) \<and>
   (waited (create_body binary_path model_name mf_path popen on_output) \<longrightarrow>
      no_outer_space (snd (outcome (create_body binary_path model_name mf_path popen on_output))))"
proof (intro conjI impI)
  assume "run [binary_path, Some ''rm'', Some model_name] = RunDone code out err"
  then show "no_outer_space (snd (remove_model binary_path model_name run))"
    by (simp add: remove_model_def strip_no_outer_space)
next
  assume "run [binary_path, Some ''stop'', Some model_name] = RunDone code out err"
  then show "no_outer_space (snd (stop_model binary_path model_name run))"
    by (simp add: stop_model_def strip_no_outer_space)
next
  assume w: "waited (pull_model binary_path model_name popen on_progress)"
  show "no_outer_space (snd (outcome (pull_model binary_path model_name popen on_progress)))"
  proof (cases "popen [binary_path, Some ''pull'', Some model_name]")
    case (PopenRaised msg)
    with w show ?thesis by (simp add: pull_model_def)
  next
    case (PopenStarted lines c)
    obtain cs r where p: "pull_loop on_progress 0 [] lines = (cs, r)"
      by (cases "pull_loop on_progress 0 [] lines")
    show ?thesis
    proof (cases r)
      case None
      have "no_outer_space ''Pull complete''" by (simp add: no_outer_space_def isspace_def)
      with PopenStarted p None pull_failed_no_outer_space[of c] show ?thesis
        by (simp add: pull_model_def)
    next
      case (Some msg)
      with PopenStarted p w show ?thesis by (simp add: pull_model_def)
    qed
  qed
next
  assume w: "waited (create_body binary_path model_name mf_path popen on_output)"
  show "no_outer_space (snd (outcome (create_body binary_path model_name mf_path popen on_output)))"
  proof (cases "popen [binary_path, Some ''create'', Some model_name, Some ''-f'', Some mf_path]")
    case (PopenRaised msg)
    with w show ?thesis by (simp add: create_body_def)
  next
    case (PopenStarted lines c)
    obtain cs r where p: "create_loop on_output [] lines = (cs, r)"
      by (cases "create_loop on_output [] lines")
    show ?thesis
    proof (cases r)
      case None
      have "no_outer_space ''Model created''" by (simp add: no_outer_space_def isspace_def)
      with PopenStarted p None create_failed_no_outer_space[of c] show ?thesis
        by (simp add: create_body_def)
    next
      case (Some msg)
      with PopenStarted p w show ?thesis by (simp add: create_body_def)
    qed
  qed
qed


lemmas strip_eval = strip_def lstrip_def rstrip_def isspace_def or_str_def
lemmas str_int_eval = str_int_def str_nat.simps digit_char_def

theorem message_stripped_witness:
  "(\<lambda>argv. RunDone 0 (Some ''  deleted llama3 \<newline>'') None) [Some ''ollama'', Some ''rm'', Some ''llama3'']
     = RunDone 0 (Some ''  deleted llama3 \<newline>'') None \<and>
   remove_model (Some ''ollama'') ''llama3'' (\<lambda>argv. RunDone 0 (Some ''  deleted llama3 \<newline>'') None)
     = (True, ''deleted llama3'') \<and>
   no_outer_space ''deleted llama3'' \<and>
   stop_model (Some ''ollama'') ''llama3'' (\<lambda>argv. RunDone 0 (Some ''  deleted llama3 \<newline>'') None)
     = (True, ''deleted llama3'') \<and>
   waited (pull_model (Some ''ollama'') ''llama3'' (\<lambda>argv. PopenStarted [] 3) None) \<and>
   outcome (pull_model (Some ''ollama'') ''llama3'' (\<lambda>argv. PopenStarted [] 3) None)
     = (False, ''Pull failed (code 3)'') \<and>
   no_outer_space ''Pull failed (code 3)'' \<and>
   waited (create_body (Some ''ollama'') ''llama3'' ''/tmp/x.modelfile'' (\<lambda>argv. PopenStarted [] 3) None) \<and>
   outcome (create_body (Some ''ollama'') ''llama3'' ''/tmp/x.modelfile'' (\<lambda>argv. PopenStarted [] 3) None)
     = (False, ''Create failed (code 3)'')"
  using message_stripped [of "\<lambda>argv. RunDone 0 (Some ''  deleted llama3 \<newline>'') None"
      "Some ''ollama''" "''llama3''" 0 "Some ''  deleted llama3 \<newline>''" None
      "\<lambda>argv. PopenStarted [] 3" None "''/tmp/x.modelfile''" None]
  by (simp add: remove_model_def stop_model_def pull_model_def create_body_def strip_eval str_int_eval)

text \<open>
  The claim as it is written fails for \<open>show_modelfile\<close>, \<open>run_model_once\<close> and
  \<open>prune\<close>, which return the captured text as it is, final newline included.
\<close>

theorem message_stripped_counterexample:
  "show_modelfile (Some ''ollama'') ''llama3'' (\<lambda>argv. RunDone 0 (Some ''FROM llama3\<newline>'') None)
     = Inr (True, Some ''FROM llama3\<newline>'') \<and>
   \<not> no_outer_space ''FROM llama3\<newline>'' \<and>
   outcome (run_model_once (Some ''ollama'') ''llama3'' ''hi'' (\<lambda>argv. PopenStarted [''Hello\<newline>''] 0) None)
     = (True, ''Hello\<newline>'') \<and>
   prune (Some ''ollama'') (\<lambda>argv. PopenStarted [''Hello\<newline>''] 0) = (True, ''Hello\<newline>'') \<and>
   \<not> no_outer_space ''Hello\<newline>''"
  by (simp add: show_modelfile_def run_model_once_def prune_def no_outer_space_def isspace_def)

section \<open>Properties of \<open>show_modelfile\<close> without a binary\<close>

text \<open>
  C7, as the code has it. \<open>show_modelfile\<close> has no test of \<open>binary_path\<close>: with
  \<open>None\<close> it hands the argument vector, \<open>None\<close> first, to \<open>subprocess.run\<close>, and when
  that raises it returns \<open>False\<close> with the text of the exception. No exception leaves the
  method.
\<close>

theorem show_modelfile_unresolved:
  "(\<exists>r. show_modelfile None model_name run = Inr r) \<and>
   (run [None, Some ''show'', Some model_name, Some ''--modelfile''] = RunRaised msg \<longrightarrow>
      show_modelfile None model_name run = Inr (False, Some msg))"
  by (cases "run [None, Some ''show'', Some model_name, Some ''--modelfile'']")
     (auto simp: show_modelfile_def)

theorem show_modelfile_unresolved_witness:
  "(\<lambda>argv. if None \<in> set argv
      then RunRaised ''expected str, bytes or os.PathLike object, not NoneType''
      else RunDone 0 (Some []) None) [None, Some ''show'', Some ''llama3'', Some ''--modelfile'']
     = RunRaised ''expected str, bytes or os.PathLike object, not NoneType'' \<and>
   show_modelfile None ''llama3'' (\<lambda>argv. if None \<in> set argv
      then RunRaised ''expected str, bytes or os.PathLike object, not NoneType''
      else RunDone 0 (Some []) None)
     = Inr (False, Some ''expected str, bytes or os.PathLike object, not NoneType'')"
  using show_modelfile_unresolved [of "''llama3''" "\<lambda>argv. if None \<in> set argv
      then RunRaised ''expected str, bytes or os.PathLike object, not NoneType''
      else RunDone 0 (Some []) None" "''expected str, bytes or os.PathLike object, not NoneType''"]
  by simp

text \<open>
  The claim as it is written fails: with an unresolved binary the result of
  \<open>show_modelfile\<close> is whatever the attempt to run the process gives, here the text of
  the \<open>TypeError\<close> that \<open>subprocess.run\<close> raises on a \<open>None\<close> argument, and not the
  message for a binary that was not found, which \<open>ensure_available\<close> returns without
  running anything.
\<close>

theorem show_modelfile_counterexample:
  "show_modelfile None ''llama3'' (\<lambda>argv. if None \<in> set argv
      then RunRaised ''expected str, bytes or os.PathLike object, not NoneType''
      else RunDone 0 (Some []) None)
     = Inr (False, Some ''expected str, bytes or os.PathLike object, not NoneType'') \<and>
   ensure_available None (\<lambda>argv. if None \<in> set argv
      then RunRaised ''expected str, bytes or os.PathLike object, not NoneType''
      else RunDone 0 (Some []) None)
     = (False, ''Ollama binary not found. Install from https://ollama.com/download'') \<and>
   show_modelfile None ''llama3'' (\<lambda>argv. RunRaised ''argument of type NoneType is not iterable'')
     \<noteq> show_modelfile None ''llama3'' (\<lambda>argv. if None \<in> set argv
      then RunRaised ''expected str, bytes or os.PathLike object, not NoneType''
      else RunDone 0 (Some []) None)"
  by (simp add: show_modelfile_def ensure_available_def unresolved_def)

section \<open>Properties of the streaming loops\<close>

lemma run_loop_done:
  "run_loop on_stream captured cs lines = (captured', cs', None) \<Longrightarrow>
   captured' = captured @ lines \<and> (on_stream \<noteq> None \<longrightarrow> cs' = cs @ lines)"
proof (induction lines arbitrary: captured cs)
  case Nil
  then show ?case by simp
next
  case (Cons line rest)
  show ?case
  proof (cases on_stream)
    case None
    with Cons.prems have "run_loop on_stream (captured @ [line]) cs rest = (captured', cs', None)"
      by simp
    from Cons.IH[OF this] None show ?thesis by simp
  next
    case (Some f)
    with Cons.prems have "f cs line = None" by (auto split: option.splits)
    with Some Cons.prems
    have "run_loop on_stream (captured @ [line]) (cs @ [line]) rest = (captured', cs', None)"
      by simp
    from Cons.IH[OF this] show ?thesis by simp
  qed
qed

lemma run_loop_no_raise:
  "\<forall>h a. f h a = None \<Longrightarrow> snd (snd (run_loop (Some f) captured cs lines)) = None"
  by (induction lines arbitrary: captured cs) simp_all

lemma run_loop_no_callback: "snd (snd (run_loop None captured cs lines)) = None"
  by (induction lines arbitrary: captured cs) simp_all

lemma pull_loop_no_raise:
  "\<forall>h a. f h a = None \<Longrightarrow> snd (pull_loop (Some f) lp cs lines) = None"
  by (induction lines arbitrary: lp cs) (simp_all add: Let_def)

lemma pull_loop_no_callback: "snd (pull_loop None lp cs lines) = None"
  by (induction lines arbitrary: lp cs) simp_all

lemma pull_loop_lines:
  "pull_loop (Some f) lp cs lines = (cs', None) \<Longrightarrow>
   map snd cs' = map snd cs @ map (rstrip_chars [CHR 0x0D, CHR 0x0A]) lines"
proof (induction lines arbitrary: lp cs)
  case Nil
  then show ?case by simp
next
  case (Cons raw rest)
  then show ?case by (auto simp: Let_def split: option.splits)
qed

text \<open>
  C8, as the code has it. When the process has started and the callback never raises,
  both methods reach \<open>proc.wait()\<close> after the callback has been given every line.
  \<open>pull_model\<close> then returns a message made of the exit code alone, whatever the lines
  were. \<open>run_model_once\<close> returns the join of all the lines: the lines that
  \<open>on_stream\<close> was given one at a time are all in the message again.
\<close>

theorem streaming_outcome:
  assumes "popen [binary_path, Some ''pull'', Some model_ref] = PopenStarted lines code"
    and "popen [binary_path, Some ''run'', Some model_name, Some ''--nowordwrap'', Some prompt]
           = PopenStarted lines' code'"
    and "never_raises on_progress" and "never_raises on_stream"
  shows "pull_model binary_path model_ref popen on_progress =
           \<lparr>outcome = (if code = 0 then (True, ''Pull complete'')
                        else (False, ''Pull failed (code '' @ str_int code @ '')'')),
            calls = calls (pull_model binary_path model_ref popen on_progress), waited = True\<rparr> \<and>
         (on_progress \<noteq> None \<longrightarrow>
            map snd (calls (pull_model binary_path model_ref popen on_progress))
              = map (rstrip_chars [CHR 0x0D, CHR 0x0A]) lines) \<and>
         run_model_once binary_path model_name prompt popen on_stream =
           \<lparr>outcome = (code' = 0, concat lines'),
            calls = (if on_stream = None then [] else lines'), waited = True\<rparr>"
proof (intro conjI impI)
  obtain cs r where p: "pull_loop on_progress 0 [] lines = (cs, r)"
    by (cases "pull_loop on_progress 0 [] lines")
  have "snd (pull_loop on_progress 0 [] lines) = None"
    using assms(3)
    by (cases on_progress) (simp_all add: never_raises_def pull_loop_no_raise pull_loop_no_callback)
  with p have r: "r = None" by simp
  with p assms(1) show "pull_model binary_path model_ref popen on_progress =
           \<lparr>outcome = (if code = 0 then (True, ''Pull complete'')
                        else (False, ''Pull failed (code '' @ str_int code @ '')'')),
            calls = calls (pull_model binary_path model_ref popen on_progress), waited = True\<rparr>"
    by (simp add: pull_model_def)
  show "map snd (calls (pull_model binary_path model_ref popen on_progress))
           = map (rstrip_chars [CHR 0x0D, CHR 0x0A]) lines" if "on_progress \<noteq> None"
  proof -
    from that obtain f where f: "on_progress = Some f" by blast
    with p r have "map snd cs = map (rstrip_chars [CHR 0x0D, CHR 0x0A]) lines"
      using pull_loop_lines[of f 0 "[]" lines cs] by simp
    with p r assms(1) show ?thesis by (simp add: pull_model_def)
  qed
next
  obtain cap cs' r' where q: "run_loop on_stream [] [] lines' = (cap, cs', r')"
    by (cases "run_loop on_stream [] [] lines'") auto
  have "snd (snd (run_loop on_stream [] [] lines')) = None"
    using assms(4)
    by (cases on_stream) (simp_all add: never_raises_def run_loop_no_raise run_loop_no_callback)
  with q have r': "r' = None" by simp
  from run_loop_done[of on_stream "[]" "[]" lines' cap cs'] q r'
  have c: "cap = lines'" "on_stream \<noteq> None \<longrightarrow> cs' = lines'" by simp_all
  have n: "on_stream = None \<Longrightarrow> cs' = []"
  proof -
    assume "on_stream = None"
    moreover have "fst (snd (run_loop None captured cs ls)) = cs" for captured cs ls
      by (induction ls arbitrary: captured) simp_all
    ultimately show ?thesis using q by (metis fst_conv snd_conv)
  qed
  from q r' c n assms(2) show "run_model_once binary_path model_name prompt popen on_stream =
           \<lparr>outcome = (code' = 0, concat lines'),
            calls = (if on_stream = None then [] else lines'), waited = True\<rparr>"
    by (auto simp: run_model_once_def)
qed

theorem streaming_outcome_witness:
  "never_raises (Some (\<lambda>h a. None) :: (int \<times> string) callback option) \<and>
   never_raises (Some (\<lambda>h a. None) :: string callback option) \<and>
   pull_model (Some ''ollama'') ''llama3''
       (\<lambda>argv. PopenStarted [''Hello\<newline>'', ''world\<newline>''] 0) (Some (\<lambda>h a. None))
     = \<lparr>outcome = (True, ''Pull complete''), calls = [(0, ''Hello''), (0, ''world'')],
        waited = True\<rparr> \<and>
   run_model_once (Some ''ollama'') ''llama3'' ''hi''
       (\<lambda>argv. PopenStarted [''Hello\<newline>'', ''world\<newline>''] 0) (Some (\<lambda>h a. None))
     = \<lparr>outcome = (True, ''Hello\<newline>world\<newline>''),
        calls = [''Hello\<newline>'', ''world\<newline>''], waited = True\<rparr>"
  using streaming_outcome [of "\<lambda>argv. PopenStarted [''Hello\<newline>'', ''world\<newline>''] 0"
      "Some ''ollama''" "''llama3''" "[''Hello\<newline>'', ''world\<newline>'']" 0
      "''llama3''" "''hi''" "[''Hello\<newline>'', ''world\<newline>'']" 0
      "Some (\<lambda>h a. None)" "Some (\<lambda>h a. None)"]
  by (simp add: never_raises_def progress_eval run_model_once_def)

text \<open>
  The claim as it is written fails for \<open>run_model_once\<close>: the two lines that
  \<open>on_stream\<close> received are the whole of the returned message. It also fails when the
  callback raises: the method returns at once, without waiting for the process.
\<close>

theorem streaming_outcome_counterexample:
  "calls (run_model_once (Some ''ollama'') ''llama3'' ''hi''
       (\<lambda>argv. PopenStarted [''Hello\<newline>'', ''world\<newline>''] 0) (Some (\<lambda>h a. None)))
     = [''Hello\<newline>'', ''world\<newline>''] \<and>
   snd (outcome (run_model_once (Some ''ollama'') ''llama3'' ''hi''
       (\<lambda>argv. PopenStarted [''Hello\<newline>'', ''world\<newline>''] 0) (Some (\<lambda>h a. None))))
     = concat [''Hello\<newline>'', ''world\<newline>''] \<and>
   pull_model (Some ''ollama'') ''llama3''
       (\<lambda>argv. PopenStarted [''Hello\<newline>'', ''world\<newline>''] 0) (Some (\<lambda>h a. Some ''closed''))
     = \<lparr>outcome = (False, ''closed''), calls = [(0, ''Hello'')], waited = False\<rparr>"
  by (simp add: progress_eval run_model_once_def)

section \<open>Properties of the temporary Modelfile\<close>

lemma os_unlink_present:
  "fs path = Some text \<Longrightarrow>
   os_unlink ul path fs = (case ul of UnlinkRaised msg \<Rightarrow> Inl msg | UnlinkOk \<Rightarrow> Inr (fs(path := None)))"
  by (auto simp: os_unlink_def split: unlink_result.splits)

text \<open>
  C9, as the code has it. Once the temporary file has been created and the Modelfile
  text written to it, \<open>create_model_from_modelfile\<close> calls \<open>os.unlink\<close> on it exactly
  once, whatever happens in between: the process cannot be started, the callback raises
  in the loop, or the process ends with any exit code; and what the method returns is
  what the inner block returned. The file is gone, and no other file has changed, when
  that call succeeds; when it raises, the exception is passed over and the file stays.
\<close>

theorem create_removes_tempfile:
  assumes "mktemp = TmpCreated mf_path" and "wr = WriteOk"
  shows "create_model_from_modelfile binary_path model_name modelfile_text mktemp wr ul popen
           on_output fs =
         \<lparr>created = create_body binary_path model_name mf_path popen on_output,
          files_after = (case ul of
                           UnlinkOk \<Rightarrow> fs(mf_path := None)
                         | UnlinkRaised msg \<Rightarrow> fs(mf_path \<mapsto> modelfile_text)),
          unlinked = [mf_path]\<rparr> \<and>
         (ul = UnlinkOk \<longrightarrow>
            files_after (create_model_from_modelfile binary_path model_name modelfile_text mktemp
              wr ul popen on_output fs) mf_path = None)"
proof -
  have p: "(fs(mf_path \<mapsto> modelfile_text)) mf_path = Some modelfile_text" by simp
  show ?thesis
    using assms
      os_unlink_present[of "fs(mf_path \<mapsto> modelfile_text)" mf_path modelfile_text ul, OF p]
    by (cases ul) (simp_all add: create_model_from_modelfile_def Let_def)
qed

theorem create_removes_tempfile_witness:
  "files_after (create_model_from_modelfile (Some ''ollama'') ''m'' ''FROM llama3''
      (TmpCreated ''/tmp/a.modelfile'') WriteOk UnlinkOk (\<lambda>argv. PopenStarted [''ok''] 0) None
      [''/home/u/notes'' \<mapsto> ''x'']) ''/tmp/a.modelfile'' = None \<and>
   files_after (create_model_from_modelfile (Some ''ollama'') ''m'' ''FROM llama3''
      (TmpCreated ''/tmp/a.modelfile'') WriteOk UnlinkOk (\<lambda>argv. PopenStarted [''bad''] 1) None
      [''/home/u/notes'' \<mapsto> ''x'']) ''/tmp/a.modelfile'' = None \<and>
   files_after (create_model_from_modelfile (Some ''ollama'') ''m'' ''FROM llama3''
      (TmpCreated ''/tmp/a.modelfile'') WriteOk UnlinkOk (\<lambda>argv. PopenStarted [''ok''] 0)
      (Some (\<lambda>h a. Some ''closed'')) [''/home/u/notes'' \<mapsto> ''x'']) ''/tmp/a.modelfile'' = None \<and>
   created (create_model_from_modelfile (Some ''ollama'') ''m'' ''FROM llama3''
      (TmpCreated ''/tmp/a.modelfile'') WriteOk UnlinkOk (\<lambda>argv. PopenStarted [''ok''] 0)
      (Some (\<lambda>h a. Some ''closed'')) [''/home/u/notes'' \<mapsto> ''x''])
     = \<lparr>outcome = (False, ''closed''), calls = [''ok''], waited = False\<rparr> \<and>
   unlinked (create_model_from_modelfile (Some ''ollama'') ''m'' ''FROM llama3''
      (TmpCreated ''/tmp/a.modelfile'') WriteOk UnlinkOk (\<lambda>argv. PopenRaised ''No such file'') None
      [''/home/u/notes'' \<mapsto> ''x'']) = [''/tmp/a.modelfile''] \<and>
   files_after (create_model_from_modelfile (Some ''ollama'') ''m'' ''FROM llama3''
      (TmpCreated ''/tmp/a.modelfile'') WriteOk UnlinkOk (\<lambda>argv. PopenRaised ''No such file'') None
      [''/home/u/notes'' \<mapsto> ''x'']) ''/home/u/notes'' = Some ''x''"
  using
    create_removes_tempfile [of "TmpCreated ''/tmp/a.modelfile''" "''/tmp/a.modelfile''" WriteOk
      "Some ''ollama''" "''m''" "''FROM llama3''" UnlinkOk "\<lambda>argv. PopenStarted [''ok''] 0" None
      "[''/home/u/notes'' \<mapsto> ''x'']"]
    create_removes_tempfile [of "TmpCreated ''/tmp/a.modelfile''" "''/tmp/a.modelfile''" WriteOk
      "Some ''ollama''" "''m''" "''FROM llama3''" UnlinkOk "\<lambda>argv. PopenStarted [''bad''] 1" None
      "[''/home/u/notes'' \<mapsto> ''x'']"]
    create_removes_tempfile [of "TmpCreated ''/tmp/a.modelfile''" "''/tmp/a.modelfile''" WriteOk
      "Some ''ollama''" "''m''" "''FROM llama3''" UnlinkOk "\<lambda>argv. PopenStarted [''ok''] 0"
      "Some (\<lambda>h a. Some ''closed'')" "[''/home/u/notes'' \<mapsto> ''x'']"]
    create_removes_tempfile [of "TmpCreated ''/tmp/a.modelfile''" "''/tmp/a.modelfile''" WriteOk
      "Some ''ollama''" "''m''" "''FROM llama3''" UnlinkOk "\<lambda>argv. PopenRaised ''No such file''" None
      "[''/home/u/notes'' \<mapsto> ''x'']"]
  by (simp add: create_body_def rstrip_chars_def)

text \<open>
  The claim as it is written fails. When writing the text raises, the method returns
  before the inner block is entered: \<open>os.unlink\<close> is never called and the file, with what
  was written of the text, stays. And when \<open>os.unlink\<close> itself raises, after a creation
  that succeeded, the exception is passed over and the file stays as well.
\<close>

theorem create_removes_tempfile_counterexample:
  "create_model_from_modelfile (Some ''ollama'') ''m'' ''FROM llama3''
      (TmpCreated ''/tmp/a.modelfile'') (WriteRaised ''No space left on device'' ''FROM'') UnlinkOk
      (\<lambda>argv. PopenStarted [''ok''] 0) None Map.empty
     = \<lparr>created = \<lparr>outcome = (False, ''No space left on device''), calls = [], waited = False\<rparr>,
        files_after = [''/tmp/a.modelfile'' \<mapsto> ''FROM''], unlinked = []\<rparr> \<and>
   files_after (create_model_from_modelfile (Some ''ollama'') ''m'' ''FROM llama3''
      (TmpCreated ''/tmp/a.modelfile'') (WriteRaised ''No space left on device'' ''FROM'') UnlinkOk
      (\<lambda>argv. PopenStarted [''ok''] 0) None Map.empty) ''/tmp/a.modelfile'' \<noteq> None \<and>
   create_model_from_modelfile (Some ''ollama'') ''m'' ''FROM llama3''
      (TmpCreated ''/tmp/a.modelfile'') WriteOk (UnlinkRaised ''Permission denied'')
      (\<lambda>argv. PopenStarted [''ok''] 0) None Map.empty
     = \<lparr>created = \<lparr>outcome = (True, ''Model created''), calls = [], waited = True\<rparr>,
        files_after = [''/tmp/a.modelfile'' \<mapsto> ''FROM llama3''], unlinked = [''/tmp/a.modelfile'']\<rparr> \<and>
   files_after (create_model_from_modelfile (Some ''ollama'') ''m'' ''FROM llama3''
      (TmpCreated ''/tmp/a.modelfile'') WriteOk (UnlinkRaised ''Permission denied'')
      (\<lambda>argv. PopenStarted [''ok''] 0) None Map.empty) ''/tmp/a.modelfile'' \<noteq> None"
  by (simp add: create_model_from_modelfile_def create_body_def os_unlink_def Let_def)

section \<open>Properties of \<open>list_models\<close>\<close>

lemma split_on_nonempty: "split_on sep s \<noteq> []"
  by (induction s) (auto split: list.splits)

lemma hd_split_on: "hd (split_on sep s) = takeWhile (\<lambda>c. c \<noteq> sep) s"
  by (induction s) (auto split: list.splits simp: split_on_nonempty)

lemma index_split_on: "index (split_on sep s) 0 = Inr (takeWhile (\<lambda>c. c \<noteq> sep) s)"
  using split_on_nonempty[of sep s] hd_split_on[of sep s]
  by (cases "split_on sep s") (simp_all add: index_def)

lemma dropWhile_colon: "sep \<in> set s \<Longrightarrow> dropWhile (\<lambda>c. c \<noteq> sep) s \<noteq> []"
  by (induction s) auto

lemma index_split_on1:
  "sep \<in> set s \<Longrightarrow> index (split_on1 sep s) (Suc 0) = Inr (tl (dropWhile (\<lambda>c. c \<noteq> sep) s))"
  using dropWhile_colon[of sep s]
  by (cases "dropWhile (\<lambda>c. c \<noteq> sep) s") (simp_all add: split_on1_def index_def)

lemma dropWhile_no_colon: "sep \<notin> set s \<Longrightarrow> dropWhile (\<lambda>c. c \<noteq> sep) s = []"
  by (induction s) auto

lemma takeWhile_no_colon: "sep \<notin> set s \<Longrightarrow> takeWhile (\<lambda>c. c \<noteq> sep) s = s"
  by (induction s) auto

lemma derive_family_str: "derive_family (JStr s) = Inr (JStr (spec_family s))"
  by (simp add: derive_family_def ebind_def index_split_on spec_family_def takeWhile_no_colon)

lemma derive_quant_str: "derive_quant (JStr s) = Inr (spec_quant s)"
proof (cases "CHR '':'' \<in> set s")
  case True
  then obtain c variant where d: "dropWhile (\<lambda>c. c \<noteq> CHR '':'') s = c # variant"
    using dropWhile_colon[of "CHR '':''" s] by (cases "dropWhile (\<lambda>c. c \<noteq> CHR '':'') s") auto
  with True show ?thesis
    by (simp add: derive_quant_def ebind_def index_split_on1 spec_quant_def)
next
  case False
  then show ?thesis
    by (simp add: derive_quant_def ebind_def spec_quant_def dropWhile_no_colon)
qed

lemma derive_family_other: "\<forall>s. nm \<noteq> JStr s \<Longrightarrow> derive_family nm = Inr fam \<Longrightarrow> fam = nm"
  by (cases nm) (auto simp: derive_family_def ebind_def split: if_splits)

lemma derive_quant_other: "\<forall>s. nm \<noteq> JStr s \<Longrightarrow> derive_quant nm = Inr q \<Longrightarrow> q = []"
  by (cases nm) (auto simp: derive_quant_def ebind_def split: if_splits)

lemma derived_from_nameI:
  assumes "derive_family (name m) = Inr (family m)" and "derive_quant (name m) = Inr (quant m)"
  shows "derived_from_name m"
proof (cases "\<exists>s. name m = JStr s")
  case True
  with assms show ?thesis
    by (auto simp: derived_from_name_def derive_family_str derive_quant_str)
next
  case False
  with assms have "family m = name m" "quant m = []"
    using derive_family_other[of "name m" "family m"] derive_quant_other[of "name m" "quant m"]
    by simp_all
  with False show ?thesis by (cases "name m") (simp_all add: derived_from_name_def)
qed

lemma json_item_derived: "json_item item = Inr m \<Longrightarrow> derived_from_name m"
  by (rule derived_from_nameI)
     (auto simp: json_item_def ebind_def split: sum.splits if_splits)

lemma text_item_derived: "text_item parts = Inr m \<Longrightarrow> derived_from_name m"
  by (rule derived_from_nameI)
     (auto simp: text_item_def ebind_def split: sum.splits if_splits)

lemma json_loop_derived:
  "\<forall>m \<in> set models. derived_from_name m \<Longrightarrow>
   \<forall>m \<in> set (fst (json_loop models items)). derived_from_name m"
proof (induction items arbitrary: models)
  case Nil
  then show ?case by simp
next
  case (Cons item rest)
  show ?case
  proof (cases "json_item item")
    case (Inl e)
    with Cons.prems show ?thesis by simp
  next
    case (Inr m)
    then have "\<forall>x \<in> set (models @ [m]). derived_from_name x"
      using Cons.prems json_item_derived by auto
    from Cons.IH[OF this] Inr show ?thesis by simp
  qed
qed

lemma text_loop_derived:
  "\<forall>m \<in> set models. derived_from_name m \<Longrightarrow>
   \<forall>m \<in> set (fst (text_loop models lines)). derived_from_name m"
proof (induction lines arbitrary: models)
  case Nil
  then show ?case by simp
next
  case (Cons line rest)
  show ?case
  proof (cases "length (split line) < 4")
    case True
    with Cons show ?thesis by (simp add: Let_def)
  next
    case False
    show ?thesis
    proof (cases "text_item (split line)")
      case (Inl e)
      with False Cons.prems show ?thesis by (simp add: Let_def)
    next
      case (Inr m)
      then have "\<forall>x \<in> set (models @ [m]). derived_from_name x"
        using Cons.prems text_item_derived by auto
      from Cons.IH[OF this] Inr False show ?thesis by (simp add: Let_def)
    qed
  qed
qed

lemma list_models_json_derived:
  "\<forall>m \<in> set (models_of (list_models_json binary_path run loads)). derived_from_name m"
proof -
  have a: "\<forall>m \<in> set (fst (json_loop [] items)). derived_from_name m" for items
    by (rule json_loop_derived) simp
  have "\<forall>m \<in> set (models_of (case json_loop [] items of
               (models, Some e) \<Rightarrow> Raised models e | (models, None) \<Rightarrow> Return models)).
             derived_from_name m" for items
    using a[of items] by (cases "json_loop [] items"; cases "snd (json_loop [] items)") auto
  then show ?thesis
    by (simp add: list_models_json_def Let_def split: sum.splits option.splits)
qed

lemma list_models_text_derived:
  assumes "\<forall>m \<in> set models. derived_from_name m"
  shows "\<forall>m \<in> set (models_of (list_models_text models binary_path run)). derived_from_name m"
proof -
  have a: "\<forall>m \<in> set (fst (text_loop models lines)). derived_from_name m" for lines
    using assms by (rule text_loop_derived)
  have "\<forall>m \<in> set (models_of (case text_loop models lines of
               (models', Some e) \<Rightarrow> Raised models' e | (models', None) \<Rightarrow> Return models')).
             derived_from_name m" for lines
    using a[of lines] by (cases "text_loop models lines"; cases "snd (text_loop models lines)") auto
  with assms show ?thesis
    by (simp add: list_models_text_def Let_def split: sum.splits)
qed

lemma list_models_eq:
  "list_models binary_path run loads =
     Inr (if unresolved binary_path then []
          else (case list_models_json binary_path run loads of
                  Return models \<Rightarrow> models
                | a \<Rightarrow> models_of (list_models_text (models_of a) binary_path run)))"
  by (simp add: list_models_def split: attempt.splits)

lemmas list_eval =
  split_def isspace_def splitlines_def is_linebreak_def strip_def lstrip_def rstrip_def
  or_str_def text_item_def derive_family_def derive_quant_def ebind_def index_def
  split_on1_def match_quant_def isdigit_def Let_def run_checked_def list_models_text_def
  list_models_json_def list_models_def unresolved_def json_item_def

text \<open>
  C4. In every record that \<open>list_models\<close> returns, from the decoded listing or from the
  text listing, \<open>family\<close> and \<open>quant\<close> are the ones derived from \<open>name\<close>: the part of
  the name before the first colon (the whole name when it has none), and the token that
  the pattern finds after the first colon (empty when there is none). A record named
  \<open>mistral:7b-q4_0\<close> has the quantization \<open>q4_0\<close>.
\<close>

theorem list_models_derived:
  assumes "list_models binary_path run loads = Inr models" and "m \<in> set models"
  shows "derived_from_name m \<and>
         (name m = JStr ''mistral:7b-q4_0'' \<longrightarrow> family m = JStr ''mistral'' \<and> quant m = ''q4_0'')"
proof -
  let ?j = "list_models_json binary_path run loads"
  have j: "\<forall>x \<in> set (models_of ?j). derived_from_name x"
    by (rule list_models_json_derived)
  then have t: "\<forall>x \<in> set (models_of (list_models_text (models_of ?j) binary_path run)).
      derived_from_name x"
    by (rule list_models_text_derived)
  have "\<forall>x \<in> set models. derived_from_name x"
    using assms(1) j t unfolding list_models_eq
    by (cases ?j) (auto split: if_splits)
  with assms(2) have d: "derived_from_name m" by blast
  have "spec_family ''mistral:7b-q4_0'' = ''mistral''" "spec_quant ''mistral:7b-q4_0'' = ''q4_0''"
    by (simp_all add: spec_family_def spec_quant_def match_quant_def isdigit_def)
  with d show ?thesis by (auto simp: derived_from_name_def)
qed

theorem list_models_derived_witness:
  "list_models (Some ''ollama'')
     (\<lambda>argv. if argv = [Some ''ollama'', Some ''list'']
        then RunDone 0 (Some ''NAME ID SIZE MODIFIED\<newline>mistral:7b-q4_0 def456 3.8GB 1 day ago\<newline>'') None
        else RunDone 1 None (Some ''unknown flag''))
     (\<lambda>text. None)
   = Inr [\<lparr>name = JStr ''mistral:7b-q4_0'', size' = JStr ''def456'',
            modified = JStr ''3.8GB 1 day ago'', id' = JStr [],
            family = JStr ''mistral'', quant = ''q4_0''\<rparr>] \<and>
   derived_from_name \<lparr>name = JStr ''mistral:7b-q4_0'', size' = JStr ''def456'',
            modified = JStr ''3.8GB 1 day ago'', id' = JStr [],
            family = JStr ''mistral'', quant = ''q4_0''\<rparr>"
  using list_models_derived [of "Some ''ollama''"
     "\<lambda>argv. if argv = [Some ''ollama'', Some ''list'']
        then RunDone 0 (Some ''NAME ID SIZE MODIFIED\<newline>mistral:7b-q4_0 def456 3.8GB 1 day ago\<newline>'') None
        else RunDone 1 None (Some ''unknown flag'')"
     "\<lambda>text. None"
     "[\<lparr>name = JStr ''mistral:7b-q4_0'', size' = JStr ''def456'',
            modified = JStr ''3.8GB 1 day ago'', id' = JStr [],
            family = JStr ''mistral'', quant = ''q4_0''\<rparr>]"
     "\<lparr>name = JStr ''mistral:7b-q4_0'', size' = JStr ''def456'',
            modified = JStr ''3.8GB 1 day ago'', id' = JStr [],
            family = JStr ''mistral'', quant = ''q4_0''\<rparr>"]
  by (simp add: list_eval)



lemma text_item_ok:
  "2 \<le> length parts \<Longrightarrow>
   text_item parts =
     Inr \<lparr>name = JStr (parts ! 0), size' = JStr (parts ! 1),
          modified = JStr (join '' '' (drop 2 parts)), id' = JStr [],
          family = JStr (spec_family (parts ! 0)), quant = spec_quant (parts ! 0)\<rparr>"
  by (auto simp: text_item_def ebind_def index_def derive_family_str derive_quant_str)

lemma text_loop_no_raise: "snd (text_loop models lines) = None"
proof (induction lines arbitrary: models)
  case Nil
  then show ?case by simp
next
  case (Cons line rest)
  then show ?case by (cases "length (split line) < 4") (simp_all add: Let_def text_item_ok)
qed

text \<open>
  C1, as the code has it. A data line with fewer than four tokens is skipped and the loop
  goes on. A data line with at least four tokens gives one record: the name is the first
  token, the size is the second token, and the modification text is all the tokens from
  the third on, joined by single spaces. For a line of exactly four tokens this is the
  reading of the specification. The loop never raises.
\<close>

theorem text_loop_data_line:
  "(length (split line) < 4 \<longrightarrow> text_loop models (line # rest) = text_loop models rest) \<and>
   (4 \<le> length (split line) \<longrightarrow>
      text_loop models (line # rest) =
        text_loop (models @
          [\<lparr>name = JStr (split line ! 0), size' = JStr (split line ! 1),
            modified = JStr (join '' '' (drop 2 (split line))), id' = JStr [],
            family = JStr (spec_family (split line ! 0)),
            quant = spec_quant (split line ! 0)\<rparr>]) rest) \<and>
   (length (split line) = 4 \<longrightarrow>
      (split line ! 0, split line ! 1, join '' '' (drop 2 (split line)))
        = spec_text_fields (split line)) \<and>
   snd (text_loop models lines) = None"
proof (intro conjI impI)
  assume "length (split line) < 4"
  then show "text_loop models (line # rest) = text_loop models rest" by (simp add: Let_def)
next
  assume "4 \<le> length (split line)"
  then show "text_loop models (line # rest) =
        text_loop (models @
          [\<lparr>name = JStr (split line ! 0), size' = JStr (split line ! 1),
            modified = JStr (join '' '' (drop 2 (split line))), id' = JStr [],
            family = JStr (spec_family (split line ! 0)),
            quant = spec_quant (split line ! 0)\<rparr>]) rest"
    by (simp add: Let_def text_item_ok)
next
  assume "length (split line) = 4"
  then obtain a b c d where "split line = [a, b, c, d]"
    by (auto simp: numeral_eq_Suc length_Suc_conv)
  then show "(split line ! 0, split line ! 1, join '' '' (drop 2 (split line)))
        = spec_text_fields (split line)"
    by (simp add: spec_text_fields_def)
next
  show "snd (text_loop models lines) = None" by (rule text_loop_no_raise)
qed

theorem text_loop_data_line_witness:
  "length (split ''bad line'') < 4 \<and>
   length (split ''llama3:8b 4.7GB 2024-05-01 10:00'') = 4 \<and>
   text_loop [] [''bad line'', ''llama3:8b 4.7GB 2024-05-01 10:00''] =
     ([\<lparr>name = JStr ''llama3:8b'', size' = JStr ''4.7GB'',
        modified = JStr ''2024-05-01 10:00'', id' = JStr [],
        family = JStr ''llama3'', quant = []\<rparr>], None) \<and>
   spec_text_fields (split ''llama3:8b 4.7GB 2024-05-01 10:00'')
     = (''llama3:8b'', ''4.7GB'', ''2024-05-01 10:00'')"
  using
    text_loop_data_line [of "''bad line''" "[]" "[''llama3:8b 4.7GB 2024-05-01 10:00'']" "[]"]
    text_loop_data_line [of "''llama3:8b 4.7GB 2024-05-01 10:00''" "[]" "[]" "[]"]
  by (simp add: list_eval spec_text_fields_def spec_family_def spec_quant_def)

text \<open>
  The claim as it is written fails on the data line of the specification's own example,
  which has six tokens: the code takes the second token for the size and everything from
  the third token on for the modification text, where the claim has the name run up to
  the last three tokens.
\<close>

theorem text_loop_data_line_counterexample:
  "split ''llama3:8b  abc123  4.7GB  2 days ago''
     = [''llama3:8b'', ''abc123'', ''4.7GB'', ''2'', ''days'', ''ago''] \<and>
   text_item [''llama3:8b'', ''abc123'', ''4.7GB'', ''2'', ''days'', ''ago'']
     = Inr \<lparr>name = JStr ''llama3:8b'', size' = JStr ''abc123'',
            modified = JStr ''4.7GB 2 days ago'', id' = JStr [],
            family = JStr ''llama3'', quant = []\<rparr> \<and>
   spec_text_fields [''llama3:8b'', ''abc123'', ''4.7GB'', ''2'', ''days'', ''ago'']
     = (''llama3:8b abc123 4.7GB'', ''2'', ''days ago'') \<and>
   (''llama3:8b'', ''abc123'', ''4.7GB 2 days ago'')
     \<noteq> spec_text_fields [''llama3:8b'', ''abc123'', ''4.7GB'', ''2'', ''days'', ''ago'']"
  by (simp add: list_eval spec_text_fields_def)

end
